theory Spec2Isabelle
  imports Main "HOL-Library.Word" "HOL-Library.AList"
begin

section \<open>Bytes, Python values and library functions\<close>

text \<open>
  The four builders of the repository (\<^verbatim>\<open>app_blob_manager.py\<close>, \<^verbatim>\<open>app-blob-builder.py\<close>,
  \<^verbatim>\<open>binary-blob-builder.py\<close>, \<^verbatim>\<open>userdata-blob-builder.py\<close>) are embedded function by function.
  Python integers are \<open>int\<close>, byte strings are lists of 8-bit words, \<open>str\<close> is \<open>string\<close>
  (code points below 256), a \<open>dict\<close> is an association list in insertion order.
\<close>

type_synonym byte = "8 word"
type_synonym bytes = "byte list"

datatype py_error =
    FileNotFoundError | MemoryError | OSError | OverflowError | StructError | TarError
  | ValueError | ZlibError

definition bytes_of :: "string \<Rightarrow> bytes" where
  \<comment> \<open>a bytes literal, and \<open>str.encode('utf-8')\<close> of an ASCII string\<close>
  "bytes_of s = map (\<lambda>c. of_nat (of_char c)) s"

subsection \<open>dict\<close>

definition dict_get :: "('k \<times> 'v) list \<Rightarrow> 'k \<Rightarrow> 'v option" where
  "dict_get d k = map_of d k"

definition dict_contains :: "('k \<times> 'v) list \<Rightarrow> 'k \<Rightarrow> bool" where
  \<comment> \<open>\<open>k in d\<close>\<close>
  "dict_contains d k = (map_of d k \<noteq> None)"

definition dict_set :: "('k \<times> 'v) list \<Rightarrow> 'k \<Rightarrow> 'v \<Rightarrow> ('k \<times> 'v) list" where
  \<comment> \<open>\<open>d[k] = v\<close>: an existing key keeps its position, a new key goes last\<close>
  "dict_set d k v = AList.update k v d"

definition dict_del :: "('k \<times> 'v) list \<Rightarrow> 'k \<Rightarrow> ('k \<times> 'v) list" where
  \<comment> \<open>\<open>del d[k]\<close>, called only where \<open>k in d\<close> has been checked\<close>
  "dict_del d k = AList.delete k d"

definition dict_keys :: "('k \<times> 'v) list \<Rightarrow> 'k list" where
  "dict_keys d = map fst d"

subsection \<open>struct.pack\<close>

datatype byteorder = LittleEndian | BigEndian

fun le_bytes :: "nat \<Rightarrow> nat \<Rightarrow> bytes" where
  "le_bytes 0 n = []"
| "le_bytes (Suc k) n = of_nat (n mod 256) # le_bytes k (n div 256)"

definition pack_uint :: "byteorder \<Rightarrow> nat \<Rightarrow> int \<Rightarrow> py_error + bytes" where
  \<comment> \<open>\<open>struct.pack('H', v)\<close> for width 2 and \<open>struct.pack('I', v)\<close> for width 4, in the
      platform's byte order; a value out of range raises \<open>struct.error\<close>\<close>
  "pack_uint bo w v =
     (if v < 0 \<or> 2 ^ (8 * w) \<le> v then Inl StructError
      else Inr (case bo of LittleEndian \<Rightarrow> le_bytes w (nat v)
                         | BigEndian \<Rightarrow> rev (le_bytes w (nat v))))"

fun le_value :: "bytes \<Rightarrow> nat" where
  "le_value [] = 0"
| "le_value (b # bs) = unat b + 256 * le_value bs"

definition unpack_uint :: "byteorder \<Rightarrow> bytes \<Rightarrow> int" where
  \<comment> \<open>\<open>struct.unpack('H', bs)[0]\<close> and \<open>struct.unpack('I', bs)[0]\<close>\<close>
  "unpack_uint bo bs =
     int (case bo of LittleEndian \<Rightarrow> le_value bs | BigEndian \<Rightarrow> le_value (rev bs))"

subsection \<open>json.dumps(value, indent=2)\<close>

datatype json =
    JNull
  | JInt int
  | JStr string
  | JArr "json list"
  | JObj "(string \<times> json) list"

fun dec_nat :: "nat \<Rightarrow> string" where
  "dec_nat n =
     (if n < 10 then [char_of (48 + n)]
      else dec_nat (n div 10) @ [char_of (48 + n mod 10)])"

declare dec_nat.simps [simp del]

definition dec_int :: "int \<Rightarrow> string" where
  "dec_int i = (if i < 0 then CHR ''-'' # dec_nat (nat (- i)) else dec_nat (nat i))"

definition hex_digit :: "nat \<Rightarrow> char" where
  "hex_digit d = (if d < 10 then char_of (48 + d) else char_of (87 + d))"

definition json_escape_char :: "char \<Rightarrow> string" where
  \<comment> \<open>\<open>ensure_ascii=True\<close>: everything outside \<open>' '..'~'\<close>, the quote and the backslash
      are escaped\<close>
  "json_escape_char c =
     (let n = (of_char c :: nat) in
      if n = 0x22 then [CHR 0x5C, CHR 0x22]
      else if n = 0x5C then [CHR 0x5C, CHR 0x5C]
      else if n = 0x0A then [CHR 0x5C, CHR ''n'']
      else if n = 0x0D then [CHR 0x5C, CHR ''r'']
      else if n = 0x09 then [CHR 0x5C, CHR ''t'']
      else if n = 0x08 then [CHR 0x5C, CHR ''b'']
      else if n = 0x0C then [CHR 0x5C, CHR ''f'']
      else if n < 0x20 \<or> 0x7E < n
        then [CHR 0x5C, CHR ''u'', CHR ''0'', CHR ''0'', hex_digit (n div 16), hex_digit (n mod 16)]
      else [c])"

definition json_string :: "string \<Rightarrow> string" where
  "json_string s = CHR 0x22 # concat (map json_escape_char s) @ [CHR 0x22]"

definition newline_indent :: "nat \<Rightarrow> string" where
  "newline_indent lvl = CHR 0x0A # replicate (2 * lvl) CHR '' ''"

fun join :: "string \<Rightarrow> string list \<Rightarrow> string" where
  "join sep [] = []"
| "join sep [x] = x"
| "join sep (x # y # ys) = x @ sep @ join sep (y # ys)"

fun dumps :: "nat \<Rightarrow> json \<Rightarrow> string" where
  "dumps lvl JNull = ''null''"
| "dumps lvl (JInt i) = dec_int i"
| "dumps lvl (JStr s) = json_string s"
| "dumps lvl (JArr xs) =
     (if xs = [] then ''[]''
      else ''['' @ newline_indent (Suc lvl)
           @ join (CHR '','' # newline_indent (Suc lvl)) (map (dumps (Suc lvl)) xs)
           @ newline_indent lvl @ '']'')"
| "dumps lvl (JObj kvs) =
     (if kvs = [] then ''{}''
      else ''{'' @ newline_indent (Suc lvl)
           @ join (CHR '','' # newline_indent (Suc lvl))
               (map (\<lambda>(k, v). json_string k @ '': '' @ dumps (Suc lvl) v) kvs)
           @ newline_indent lvl @ ''}'')"

definition json_dumps :: "json \<Rightarrow> string" where
  "json_dumps j = dumps 0 j"


subsection \<open>Strings and paths\<close>

definition str_endswith :: "string \<Rightarrow> string \<Rightarrow> bool" where
  "str_endswith s suffix =
     (length suffix \<le> length s \<and> drop (length s - length suffix) s = suffix)"

fun str_contains :: "string \<Rightarrow> string \<Rightarrow> bool" where
  \<comment> \<open>\<open>sub in s\<close>\<close>
  "str_contains [] sub = (sub = [])"
| "str_contains (c # cs) sub = (take (length sub) (c # cs) = sub \<or> str_contains cs sub)"

definition path_join :: "string \<Rightarrow> string \<Rightarrow> string" where
  \<comment> \<open>\<open>os.path.join(a, b)\<close> of posixpath\<close>
  "path_join a b =
     (if b \<noteq> [] \<and> hd b = CHR ''/'' then b
      else if a = [] \<or> last a = CHR ''/'' then a @ b
      else a @ ''/'' @ b)"

subsection \<open>The libraries and the file system the code calls\<close>

record walk_file =
  wf_rel_path :: string
  wf_filename :: string
  wf_size :: int
  wf_x_ok :: bool

text \<open>
  \<open>tarfile\<close>, \<open>zlib\<close>, \<open>hashlib\<close> and the file system are not code of the repository: they
  are parameters of the model. \<open>walk_files p\<close> stands for the files \<open>os.walk(p)\<close> yields,
  each with its \<open>os.path.relpath\<close> to \<open>p\<close>, its name, its \<open>os.path.getsize\<close> and
  \<open>os.access(_, os.X_OK)\<close>; \<open>zlib_decompress\<close> is \<open>None\<close> where \<open>zlib.decompress\<close> raises
  \<open>zlib.error\<close>. The destination file system is a value of type \<open>'fs\<close>, and the two
  operations writing to it return the new file system and the exception raised, if any.
  \<open>max_seek\<close> is the largest position the file system lets \<open>f.seek\<close> move to and
  \<open>max_read\<close> the largest count for which \<open>f.read\<close> gets its buffer; both depend on the
  platform and lie below \<open>2^63 - 1\<close>.
\<close>

record 'fs env =
  path_exists :: "string \<Rightarrow> bool"
  tar_add :: "string \<Rightarrow> string \<Rightarrow> bytes"
  walk_files :: "string \<Rightarrow> walk_file list"
  zlib_compress :: "bytes \<Rightarrow> int \<Rightarrow> bytes"
  zlib_decompress :: "bytes \<Rightarrow> bytes option"
  sha256_hexdigest :: "bytes \<Rightarrow> string"
  makedirs :: "string \<Rightarrow> 'fs \<Rightarrow> py_error option \<times> 'fs"
  tar_extractall :: "bytes \<Rightarrow> string \<Rightarrow> 'fs \<Rightarrow> py_error option \<times> 'fs"
  max_seek :: int
  max_read :: int

subsection \<open>io.BytesIO\<close>

record bytesio =
  buf :: bytes
  pos :: nat

definition BytesIO :: "bytes \<Rightarrow> bytesio" where
  \<comment> \<open>\<open>BytesIO()\<close> is \<open>BytesIO []\<close>; the stream position starts at 0\<close>
  "BytesIO initial = \<lparr>buf = initial, pos = 0\<rparr>"

definition bytesio_write :: "bytesio \<Rightarrow> bytes \<Rightarrow> bytesio" where
  \<comment> \<open>writes at the stream position, over what is there, and moves the position on\<close>
  "bytesio_write b d =
     \<lparr>buf = take (pos b) (buf b) @ replicate (pos b - length (buf b)) 0 @ d
              @ drop (pos b + length d) (buf b),
      pos = pos b + length d\<rparr>"

definition getvalue :: "bytesio \<Rightarrow> bytes" where
  "getvalue b = buf b"

definition read_at :: "'fs env \<Rightarrow> bytes \<Rightarrow> int \<Rightarrow> int \<Rightarrow> py_error + bytes" where
  \<comment> \<open>\<open>f.seek(p); f.read(n)\<close> on a file with contents \<open>file\<close>. \<open>seek\<close> raises on a
      negative position, on one that does not fit the offset type and on one the file
      system refuses. \<open>read\<close> raises on a count below \<open>-1\<close>, on one that does not fit a
      byte string and on one it cannot get a buffer for; the count \<open>-1\<close> reads to the
      end, and a read stops at the end of the file\<close>
  "read_at env file p n =
     (if p < 0 then Inl OSError
      else if 2 ^ 63 \<le> p then Inl ValueError
      else if max_seek env < p then Inl OSError
      else if n < - 1 then Inl ValueError
      else if 2 ^ 63 - 1 \<le> n then Inl OverflowError
      else if max_read env < n then Inl MemoryError
      else Inr (if n = - 1 then drop (nat p) file else take (nat n) (drop (nat p) file)))"

section \<open>The builder state\<close>

text \<open>
  Every builder class holds the same three attributes. \<open>index\<close> is \<open>self.apps\<close> in the
  two \<open>AppBlobBuilder\<close> classes, \<open>self.binaries\<close> in \<open>BinaryBlobBuilder\<close> and \<open>self.users\<close> in
  \<open>UserDataBlobBuilder\<close>.
\<close>

record 'm builder =
  index :: "(string \<times> 'm) list"
  blob_data :: bytesio
  current_offset :: int

definition new_builder :: "'m builder" where
  \<comment> \<open>\<open>__init__\<close>\<close>
  "new_builder = \<lparr>index = [], blob_data = BytesIO [], current_offset = 0\<rparr>"

definition write_container :: "bytes \<Rightarrow> (py_error + bytes) list \<Rightarrow> py_error option \<times> bytes" where
  \<comment> \<open>the \<open>f.write\<close> calls of \<open>build\<close> in order on the truncated output file: the file
      holds what was written before the first argument that raised\<close>
  "write_container start parts =
     fold (\<lambda>p (e, file). case e of Some _ \<Rightarrow> (e, file)
                          | None \<Rightarrow> (case p of Inl err \<Rightarrow> (Some err, file)
                                              | Inr bs \<Rightarrow> (None, file @ bs)))
          parts (None, start)"

section \<open>app\_blob\_manager.py\<close>

record AppMetadata =
  app_key :: string
  app_name :: string
  app_version :: string
  app_size :: int
  app_compressed_size :: int
  app_offset :: int
  app_dependencies :: "string list"
  app_files :: "string list"
  app_checksum :: string

definition asdict :: "AppMetadata \<Rightarrow> json" where
  "asdict m = JObj
     [(''key'', JStr (app_key m)), (''name'', JStr (app_name m)),
      (''version'', JStr (app_version m)), (''size'', JInt (app_size m)),
      (''compressed_size'', JInt (app_compressed_size m)), (''offset'', JInt (app_offset m)),
      (''dependencies'', JArr (map JStr (app_dependencies m))),
      (''files'', JArr (map JStr (app_files m))), (''checksum'', JStr (app_checksum m))]"

definition manager_add_application ::
  "'fs env \<Rightarrow> AppMetadata builder \<Rightarrow> string \<Rightarrow> string \<Rightarrow> string \<Rightarrow> string
     \<Rightarrow> string list option \<Rightarrow> py_error + AppMetadata builder" where
  \<comment> \<open>\<open>AppBlobBuilder.add_application\<close>; \<open>tar.add\<close> raises on a path that does not exist\<close>
  "manager_add_application env st key name path version dependencies =
     (let dependencies = (case dependencies of None \<Rightarrow> [] | Some ds \<Rightarrow> ds) in
      if \<not> path_exists env path then Inl FileNotFoundError
      else
        let tar_data = tar_add env path ''.'';
            uncompressed_size = int (length tar_data);
            compressed_data = zlib_compress env tar_data 6;
            compressed_size = int (length compressed_data);
            checksum = sha256_hexdigest env tar_data;
            files = map wf_rel_path (walk_files env path);
            metadata = \<lparr>app_key = key, app_name = name, app_version = version,
                        app_size = uncompressed_size, app_compressed_size = compressed_size,
                        app_offset = current_offset st, app_dependencies = dependencies,
                        app_files = files, app_checksum = checksum\<rparr>
        in Inr \<lparr>index = dict_set (index st) key metadata,
                blob_data = bytesio_write (blob_data st) compressed_data,
                current_offset = current_offset st + compressed_size\<rparr>)"

definition manager_index_bytes :: "AppMetadata builder \<Rightarrow> bytes" where
  "manager_index_bytes st = bytes_of (json_dumps (JObj
     [(''version'', JStr ''1.0''),
      (''apps'', JObj (map (\<lambda>(k, m). (k, asdict m)) (index st)))]))"

definition manager_build :: "byteorder \<Rightarrow> AppMetadata builder \<Rightarrow> py_error option \<times> bytes" where
  \<comment> \<open>\<open>AppBlobBuilder.build\<close>: the bytes of the output file, and the exception raised\<close>
  "manager_build bo st =
     (let index_bytes = manager_index_bytes st;
          index_size = int (length index_bytes)
      in write_container []
           [Inr (bytes_of ''APPBLOB1''), pack_uint bo 4 index_size, Inr index_bytes,
            Inr (getvalue (blob_data st))])"

subsection \<open>AppBlobExtractor\<close>

text \<open>
  \<open>blob_file\<close> holds the bytes of the file at \<open>blob_path\<close>. The methods below have the same
  text in \<^verbatim>\<open>app_blob_manager.py\<close> and \<^verbatim>\<open>app-blob-builder.py\<close> (whose metadata has one more
  field), so they are defined once, over every extension of \<open>AppMetadata\<close>.
\<close>

record 'm extractor =
  ex_index :: "(string \<times> 'm) list"
  data_offset :: int
  blob_file :: bytes

definition extract_application ::
  "'fs env \<Rightarrow> ('a AppMetadata_scheme) extractor \<Rightarrow> string \<Rightarrow> string \<Rightarrow> bool \<Rightarrow> 'fs
     \<Rightarrow> (py_error + bool) \<times> 'fs" where
  "extract_application env ex key target_dir verify_checksum fs =
     (case dict_get (ex_index ex) key of
        None \<Rightarrow> (Inr False, fs)
      | Some metadata \<Rightarrow>
         (case read_at env (blob_file ex) (data_offset ex + app_offset metadata)
                 (app_compressed_size metadata) of
            Inl e \<Rightarrow> (Inl e, fs)
          | Inr compressed_data \<Rightarrow>
             (case zlib_decompress env compressed_data of
                None \<Rightarrow> (Inr False, fs)
              | Some tar_data \<Rightarrow>
                 if verify_checksum \<and> sha256_hexdigest env tar_data \<noteq> app_checksum metadata
                 then (Inr False, fs)
                 else
                   let app_dir = path_join target_dir key in
                   (case makedirs env app_dir fs of
                      (Some e, fs1) \<Rightarrow> (Inl e, fs1)
                    | (None, fs1) \<Rightarrow>
                       (case tar_extractall env tar_data app_dir fs1 of
                          (Some e, fs2) \<Rightarrow> (Inl e, fs2)
                        | (None, fs2) \<Rightarrow> (Inr True, fs2))))))"

definition extract_to_memory ::
  "'fs env \<Rightarrow> ('a AppMetadata_scheme) extractor \<Rightarrow> string \<Rightarrow> py_error + bytes option" where
  \<comment> \<open>\<open>AppBlobExtractor.extract_to_memory\<close> of \<^verbatim>\<open>app_blob_manager.py\<close>; \<open>zlib.error\<close> is not
      caught here\<close>
  "extract_to_memory env ex key =
     (case dict_get (ex_index ex) key of
        None \<Rightarrow> Inr None
      | Some metadata \<Rightarrow>
         (case read_at env (blob_file ex) (data_offset ex + app_offset metadata)
                 (app_compressed_size metadata) of
            Inl e \<Rightarrow> Inl e
          | Inr compressed_data \<Rightarrow>
             (case zlib_decompress env compressed_data of
                None \<Rightarrow> Inl ZlibError
              | Some tar_data \<Rightarrow> Inr (Some tar_data))))"


partial_function (option) resolve_loop ::
  "(string \<times> 'm) list \<Rightarrow> ('m \<Rightarrow> string list) \<Rightarrow> string list \<Rightarrow> string list \<Rightarrow> string list
     \<Rightarrow> (string list \<times> string list) option" where
  "resolve_loop idx deps_of resolved warnings to_process =
     (case to_process of
        [] \<Rightarrow> Some (resolved, warnings)
      | key # rest \<Rightarrow>
         if key \<in> set resolved then resolve_loop idx deps_of resolved warnings rest
         else (case dict_get idx key of
                 None \<Rightarrow> resolve_loop idx deps_of resolved (warnings @ [key]) rest
               | Some metadata \<Rightarrow>
                   resolve_loop idx deps_of (List.insert key resolved) warnings
                     (rest @ filter (\<lambda>dep. dep \<notin> set (List.insert key resolved))
                                    (deps_of metadata))))"

declare resolve_loop.simps [code]

text \<open>
  The \<open>while to_process\<close> loop of \<open>resolve_dependencies\<close>, with the same text in
  \<open>AppBlobExtractor\<close> (both files) and in \<open>BinaryBlobBuilder\<close>. \<open>resolved\<close> is a Python
  \<open>set\<close>: a list without repetition here, \<open>resolved.add\<close> being \<open>List.insert\<close>; the order
  in which \<open>list(resolved)\<close> enumerates it is not fixed by Python, so only the elements
  of the result and how often each occurs have a meaning. \<open>warnings\<close> collects the keys
  for which the warning is printed. A loop that does not end is the value \<open>None\<close>.
\<close>

definition resolve_dependencies ::
  "('a AppMetadata_scheme) extractor \<Rightarrow> string list \<Rightarrow> (string list \<times> string list) option" where
  \<comment> \<open>\<open>AppBlobExtractor.resolve_dependencies\<close>\<close>
  "resolve_dependencies ex app_keys =
     resolve_loop (ex_index ex) app_dependencies [] [] app_keys"

section \<open>app-blob-builder.py\<close>

record AppMetadataB = AppMetadata +
  app_created_at :: string

definition asdictB :: "AppMetadataB \<Rightarrow> json" where
  "asdictB m = JObj
     [(''key'', JStr (app_key m)), (''name'', JStr (app_name m)),
      (''version'', JStr (app_version m)), (''size'', JInt (app_size m)),
      (''compressed_size'', JInt (app_compressed_size m)), (''offset'', JInt (app_offset m)),
      (''dependencies'', JArr (map JStr (app_dependencies m))),
      (''files'', JArr (map JStr (app_files m))), (''checksum'', JStr (app_checksum m)),
      (''created_at'', JStr (app_created_at m))]"

definition add_application ::
  "'fs env \<Rightarrow> string \<Rightarrow> AppMetadataB builder \<Rightarrow> string \<Rightarrow> string \<Rightarrow> string \<Rightarrow> string
     \<Rightarrow> string list option \<Rightarrow> bool \<times> AppMetadataB builder" where
  \<comment> \<open>\<open>AppBlobBuilder.add_application\<close>; \<open>now\<close> is \<open>datetime.now().isoformat()\<close>\<close>
  "add_application env now st key name path version dependencies =
     (let dependencies = (case dependencies of None \<Rightarrow> [] | Some ds \<Rightarrow> ds) in
      if \<not> path_exists env path then (False, st)
      else
        let tar_data = tar_add env path ''.'';
            uncompressed_size = int (length tar_data);
            compressed_data = zlib_compress env tar_data 6;
            compressed_size = int (length compressed_data);
            checksum = sha256_hexdigest env tar_data;
            files = map wf_rel_path (walk_files env path);
            metadata = \<lparr>app_key = key, app_name = name, app_version = version,
                        app_size = uncompressed_size, app_compressed_size = compressed_size,
                        app_offset = current_offset st, app_dependencies = dependencies,
                        app_files = files, app_checksum = checksum, app_created_at = now\<rparr>
        in (True, \<lparr>index = dict_set (index st) key metadata,
                   blob_data = bytesio_write (blob_data st) compressed_data,
                   current_offset = current_offset st + compressed_size\<rparr>))"

definition VERSION :: int where
  \<comment> \<open>the class attribute of the three builders that write it\<close>
  "VERSION = 1"

definition app_index_bytes :: "string \<Rightarrow> AppMetadataB builder \<Rightarrow> bytes" where
  "app_index_bytes now st = bytes_of (json_dumps (JObj
     [(''version'', JInt VERSION), (''blob_type'', JStr ''applications''),
      (''created_at'', JStr now),
      (''apps'', JObj (map (\<lambda>(k, m). (k, asdictB m)) (index st)))]))"

definition versioned_container ::
  "byteorder \<Rightarrow> string \<Rightarrow> bytes \<Rightarrow> bytes \<Rightarrow> py_error option \<times> bytes" where
  \<comment> \<open>the \<open>with open(self.output_path, 'wb')\<close> block, the same in the three builders
      that write a version\<close>
  "versioned_container bo magic index_bytes payload =
     write_container []
       [Inr (bytes_of magic), pack_uint bo 2 VERSION,
        pack_uint bo 4 (int (length index_bytes)), Inr index_bytes, Inr payload]"

definition app_build :: "byteorder \<Rightarrow> string \<Rightarrow> AppMetadataB builder \<Rightarrow> py_error option \<times> bytes" where
  \<comment> \<open>\<open>AppBlobBuilder.build\<close> of \<^verbatim>\<open>app-blob-builder.py\<close>\<close>
  "app_build bo now st =
     versioned_container bo ''APPBLOB1'' (app_index_bytes now st) (getvalue (blob_data st))"

section \<open>binary-blob-builder.py\<close>

text \<open>
  The metadata of a binary package and of a user are Python dicts, written by \<open>add_binary\<close>
  and \<open>add_user\<close> with a fixed set of keys: records here. The two keys the code reads
  with \<open>.get(key, default)\<close> are optional fields.
\<close>

record BinaryMetadata =
  bin_key :: string
  bin_version :: string
  bin_description :: string
  bin_size :: int
  bin_compressed_size :: int
  bin_offset :: int
  bin_checksum :: string
  bin_provides :: "string list"
  bin_executables :: "string list"
  bin_libraries :: "string list"
  bin_dependencies :: "string list option"
  bin_env_vars :: "(string \<times> string) list"
  bin_architecture :: string
  bin_os_type :: string
  bin_created_at :: string

definition binary_json :: "BinaryMetadata \<Rightarrow> json" where
  "binary_json m = JObj
     ([(''key'', JStr (bin_key m)), (''version'', JStr (bin_version m)),
       (''description'', JStr (bin_description m)), (''size'', JInt (bin_size m)),
       (''compressed_size'', JInt (bin_compressed_size m)), (''offset'', JInt (bin_offset m)),
       (''checksum'', JStr (bin_checksum m)),
       (''provides'', JArr (map JStr (bin_provides m))),
       (''executables'', JArr (map JStr (bin_executables m))),
       (''libraries'', JArr (map JStr (bin_libraries m)))]
      @ (case bin_dependencies m of None \<Rightarrow> []
         | Some ds \<Rightarrow> [(''dependencies'', JArr (map JStr ds))])
      @ [(''env_vars'', JObj (map (\<lambda>(k, v). (k, JStr v)) (bin_env_vars m))),
         (''architecture'', JStr (bin_architecture m)), (''os_type'', JStr (bin_os_type m)),
         (''created_at'', JStr (bin_created_at m))])"

definition add_binary ::
  "'fs env \<Rightarrow> string \<Rightarrow> BinaryMetadata builder \<Rightarrow> string \<Rightarrow> string \<Rightarrow> string list \<Rightarrow> string
     \<Rightarrow> string \<Rightarrow> (string \<times> string) list option \<Rightarrow> string list option \<Rightarrow> string \<Rightarrow> string
     \<Rightarrow> bool \<times> BinaryMetadata builder" where
  \<comment> \<open>\<open>BinaryBlobBuilder.add_binary\<close>\<close>
  "add_binary env now st key source_path provides version description env_vars dependencies
       architecture os_type =
     (if dict_contains (index st) key then (False, st)
      else if \<not> path_exists env source_path then (False, st)
      else
        let tar_data = tar_add env source_path key;
            uncompressed_size = int (length tar_data);
            compressed_data = zlib_compress env tar_data 6;
            compressed_size = int (length compressed_data);
            checksum = sha256_hexdigest env tar_data;
            walked = walk_files env source_path;
            executables = map wf_rel_path
              (filter (\<lambda>f. wf_x_ok f \<and> \<not> str_endswith (wf_filename f) ''.so'') walked);
            libraries = map wf_rel_path
              (filter (\<lambda>f. str_endswith (wf_filename f) ''.so''
                            \<or> str_contains (wf_filename f) ''.so.'') walked);
            metadata = \<lparr>bin_key = key, bin_version = version, bin_description = description,
                        bin_size = uncompressed_size, bin_compressed_size = compressed_size,
                        bin_offset = current_offset st, bin_checksum = checksum,
                        bin_provides = provides, bin_executables = executables,
                        bin_libraries = libraries,
                        bin_dependencies =
                          Some (case dependencies of None \<Rightarrow> [] | Some ds \<Rightarrow> ds),
                        bin_env_vars = (case env_vars of None \<Rightarrow> [] | Some vs \<Rightarrow> vs),
                        bin_architecture = architecture, bin_os_type = os_type,
                        bin_created_at = now\<rparr>
        in (True, \<lparr>index = dict_set (index st) key metadata,
                   blob_data = bytesio_write (blob_data st) compressed_data,
                   current_offset = current_offset st + compressed_size\<rparr>))"

definition binary_index_bytes :: "string \<Rightarrow> BinaryMetadata builder \<Rightarrow> bytes" where
  "binary_index_bytes now st = bytes_of (json_dumps (JObj
     [(''version'', JInt VERSION), (''blob_type'', JStr ''binaries''),
      (''created_at'', JStr now), (''binary_count'', JInt (int (length (index st)))),
      (''binaries'', JObj (map (\<lambda>(k, m). (k, binary_json m)) (index st)))]))"

definition binary_build ::
  "byteorder \<Rightarrow> string \<Rightarrow> BinaryMetadata builder \<Rightarrow> py_error option \<times> bytes" where
  \<comment> \<open>\<open>BinaryBlobBuilder.build\<close>\<close>
  "binary_build bo now st =
     versioned_container bo ''BINBLOB1'' (binary_index_bytes now st) (getvalue (blob_data st))"

definition get_dependencies :: "BinaryMetadata \<Rightarrow> string list" where
  \<comment> \<open>\<open>self.binaries[key].get('dependencies', [])\<close>\<close>
  "get_dependencies m = (case bin_dependencies m of None \<Rightarrow> [] | Some ds \<Rightarrow> ds)"

definition binary_resolve_dependencies ::
  "BinaryMetadata builder \<Rightarrow> string list \<Rightarrow> (string list \<times> string list) option" where
  \<comment> \<open>\<open>BinaryBlobBuilder.resolve_dependencies\<close>\<close>
  "binary_resolve_dependencies st keys = resolve_loop (index st) get_dependencies [] [] keys"

section \<open>userdata-blob-builder.py\<close>

record UserMetadata =
  usr_user_id :: string
  usr_description :: string
  usr_size :: int
  usr_compressed_size :: int
  usr_offset :: int
  usr_file_count :: int
  usr_files :: "(string \<times> int) list"
  usr_checksum :: string
  usr_quota_mb :: "int option"
  usr_created_at :: string
  usr_updated_at :: string
  usr_version :: "int option"

definition user_json :: "UserMetadata \<Rightarrow> json" where
  "user_json m = JObj
     ([(''user_id'', JStr (usr_user_id m)), (''description'', JStr (usr_description m)),
       (''size'', JInt (usr_size m)), (''compressed_size'', JInt (usr_compressed_size m)),
       (''offset'', JInt (usr_offset m)), (''file_count'', JInt (usr_file_count m)),
       (''files'', JArr (map (\<lambda>(p, n). JObj [(''path'', JStr p), (''size'', JInt n)])
                           (usr_files m))),
       (''checksum'', JStr (usr_checksum m)),
       (''quota_mb'', (case usr_quota_mb m of None \<Rightarrow> JNull | Some q \<Rightarrow> JInt q)),
       (''created_at'', JStr (usr_created_at m)), (''updated_at'', JStr (usr_updated_at m))]
      @ (case usr_version m of None \<Rightarrow> [] | Some v \<Rightarrow> [(''version'', JInt v)]))"

definition add_user ::
  "'fs env \<Rightarrow> string \<times> string \<Rightarrow> UserMetadata builder \<Rightarrow> string \<Rightarrow> string \<Rightarrow> string
     \<Rightarrow> int option \<Rightarrow> bool \<times> UserMetadata builder" where
  \<comment> \<open>\<open>UserDataBlobBuilder.add_user\<close>; \<open>now\<close> holds the two readings of the clock\<close>
  "add_user env now st user_id source_path description quota_mb =
     (if dict_contains (index st) user_id then (False, st)
      else if \<not> path_exists env source_path then (False, st)
      else
        let tar_data = tar_add env source_path ''.'';
            uncompressed_size = int (length tar_data);
            compressed_data = zlib_compress env tar_data 6;
            compressed_size = int (length compressed_data);
            checksum = sha256_hexdigest env tar_data;
            file_count = int (length (walk_files env source_path));
            files = map (\<lambda>f. (wf_rel_path f, wf_size f)) (walk_files env source_path);
            user_metadata = \<lparr>usr_user_id = user_id, usr_description = description,
                        usr_size = uncompressed_size, usr_compressed_size = compressed_size,
                        usr_offset = current_offset st, usr_file_count = file_count,
                        usr_files = files, usr_checksum = checksum, usr_quota_mb = quota_mb,
                        usr_created_at = fst now, usr_updated_at = snd now,
                        usr_version = Some 1\<rparr>
        in (True, \<lparr>index = dict_set (index st) user_id user_metadata,
                   blob_data = bytesio_write (blob_data st) compressed_data,
                   current_offset = current_offset st + compressed_size\<rparr>))"

definition update_user ::
  "'fs env \<Rightarrow> string \<times> string \<Rightarrow> UserMetadata builder \<Rightarrow> string \<Rightarrow> string \<Rightarrow> string
     \<Rightarrow> bool \<times> UserMetadata builder" where
  \<comment> \<open>\<open>UserDataBlobBuilder.update_user\<close>\<close>
  "update_user env now st user_id source_path mode =
     (case dict_get (index st) user_id of
        None \<Rightarrow> (False, st)
      | Some old \<Rightarrow>
         if mode = ''replace'' then
           add_user env now (st\<lparr>index := dict_del (index st) user_id\<rparr>)
             user_id source_path [] None
         else if mode = ''merge'' then
           (let old_version = (case usr_version old of None \<Rightarrow> 1 | Some v \<Rightarrow> v);
                (result, st') = add_user env now (st\<lparr>index := dict_del (index st) user_id\<rparr>)
                                  user_id source_path [] None
            in if result
               then (result, st'\<lparr>index := AList.map_entry user_id
                                    (\<lambda>m. m\<lparr>usr_version := Some (old_version + 1)\<rparr>)
                                    (index st')\<rparr>)
               else (result, st'))
         else (False, st))"

definition remove_user :: "UserMetadata builder \<Rightarrow> string \<Rightarrow> bool \<times> UserMetadata builder" where
  \<comment> \<open>\<open>UserDataBlobBuilder.remove_user\<close>\<close>
  "remove_user st user_id =
     (if \<not> dict_contains (index st) user_id then (False, st)
      else (True, st\<lparr>index := dict_del (index st) user_id\<rparr>))"

definition userdata_index_bytes :: "string \<Rightarrow> UserMetadata builder \<Rightarrow> bytes" where
  "userdata_index_bytes now st = bytes_of (json_dumps (JObj
     [(''version'', JInt VERSION), (''blob_type'', JStr ''userdata''),
      (''created_at'', JStr now), (''user_count'', JInt (int (length (index st)))),
      (''users'', JObj (map (\<lambda>(k, m). (k, user_json m)) (index st)))]))"

definition userdata_build ::
  "byteorder \<Rightarrow> string \<Rightarrow> UserMetadata builder \<Rightarrow> py_error option \<times> bytes" where
  \<comment> \<open>\<open>UserDataBlobBuilder.build\<close>\<close>
  "userdata_build bo now st =
     versioned_container bo ''USERBLOB'' (userdata_index_bytes now st) (getvalue (blob_data st))"

definition list_keys :: "'m builder \<Rightarrow> string list" where
  \<comment> \<open>the keys \<open>list_users\<close> prints: those of \<open>self.users\<close>\<close>
  "list_keys st = dict_keys (index st)"

section \<open>Sequences of adds\<close>

text \<open>
  A sequence of adds on a builder, each of which has to succeed: the result is \<open>None\<close> as
  soon as one add fails (returns \<open>False\<close>, or raises in \<^verbatim>\<open>app_blob_manager.py\<close>). A request
  holds the arguments of one call, and the clock readings of that call.
\<close>

fun manager_adds ::
  "'fs env \<Rightarrow> AppMetadata builder
     \<Rightarrow> (string \<times> string \<times> string \<times> string \<times> string list option) list
     \<Rightarrow> AppMetadata builder option" where
  "manager_adds env st [] = Some st"
| "manager_adds env st ((key, name, path, version, deps) # rs) =
     (case manager_add_application env st key name path version deps of
        Inl e \<Rightarrow> None
      | Inr st' \<Rightarrow> manager_adds env st' rs)"

fun app_adds ::
  "'fs env \<Rightarrow> AppMetadataB builder
     \<Rightarrow> (string \<times> string \<times> string \<times> string \<times> string \<times> string list option) list
     \<Rightarrow> AppMetadataB builder option" where
  "app_adds env st [] = Some st"
| "app_adds env st ((key, now, name, path, version, deps) # rs) =
     (case add_application env now st key name path version deps of
        (True, st') \<Rightarrow> app_adds env st' rs
      | (False, st') \<Rightarrow> None)"

record binary_request =
  rq_now :: string
  rq_source_path :: string
  rq_provides :: "string list"
  rq_version :: string
  rq_description :: string
  rq_env_vars :: "(string \<times> string) list option"
  rq_dependencies :: "string list option"
  rq_architecture :: string
  rq_os_type :: string

fun binary_adds ::
  "'fs env \<Rightarrow> BinaryMetadata builder \<Rightarrow> (string \<times> binary_request) list
     \<Rightarrow> BinaryMetadata builder option" where
  "binary_adds env st [] = Some st"
| "binary_adds env st ((key, r) # rs) =
     (case add_binary env (rq_now r) st key (rq_source_path r) (rq_provides r) (rq_version r)
             (rq_description r) (rq_env_vars r) (rq_dependencies r) (rq_architecture r)
             (rq_os_type r) of
        (True, st') \<Rightarrow> binary_adds env st' rs
      | (False, st') \<Rightarrow> None)"

fun user_adds ::
  "'fs env \<Rightarrow> UserMetadata builder
     \<Rightarrow> (string \<times> (string \<times> string) \<times> string \<times> string \<times> int option) list
     \<Rightarrow> UserMetadata builder option" where
  "user_adds env st [] = Some st"
| "user_adds env st ((user_id, now, source_path, description, quota_mb) # rs) =
     (case add_user env now st user_id source_path description quota_mb of
        (True, st') \<Rightarrow> user_adds env st' rs
      | (False, st') \<Rightarrow> None)"

text \<open>
  The payload slices an index records, in the order of the index (which is the order of
  the writes as long as no key is written twice), and what it means for them to lie end
  to end from \<open>start\<close> up to the write cursor.
\<close>

definition slices :: "('m \<Rightarrow> int) \<Rightarrow> ('m \<Rightarrow> int) \<Rightarrow> 'm builder \<Rightarrow> (int \<times> int) list" where
  "slices offset_of size_of st = map (\<lambda>(k, m). (offset_of m, size_of m)) (index st)"

fun chain :: "int \<Rightarrow> (int \<times> int) list \<Rightarrow> int \<Rightarrow> bool" where
  "chain start [] cursor = (cursor = start)"
| "chain start ((off, sz) # es) cursor = (off = start \<and> chain (start + sz) es cursor)"

definition contiguous :: "(int \<times> int) list \<Rightarrow> int \<Rightarrow> bool" where
  \<comment> \<open>the first offset is 0, each next offset is the previous one plus the previous
      compressed size, and the cursor is the sum of the compressed sizes\<close>
  "contiguous sl cursor =
     ((sl \<noteq> [] \<longrightarrow> fst (hd sl) = 0)
      \<and> (\<forall>i. Suc i < length sl \<longrightarrow> fst (sl ! Suc i) = fst (sl ! i) + snd (sl ! i))
      \<and> cursor = sum_list (map snd sl))"

section \<open>The dependency closure\<close>

text \<open>
  The loop of \<open>resolve_dependencies\<close> again, as a total function: each iteration either
  shortens \<open>to_process\<close> and leaves \<open>resolved\<close> as it is, or moves one key of the index
  into \<open>resolved\<close>.
\<close>

function resolve_total ::
  "(string \<times> 'm) list \<Rightarrow> ('m \<Rightarrow> string list) \<Rightarrow> string list \<Rightarrow> string list \<Rightarrow> string list
     \<Rightarrow> string list \<times> string list" where
  "resolve_total idx deps_of resolved warnings [] = (resolved, warnings)"
| "resolve_total idx deps_of resolved warnings (key # rest) =
     (if key \<in> set resolved then resolve_total idx deps_of resolved warnings rest
      else (case dict_get idx key of
              None \<Rightarrow> resolve_total idx deps_of resolved (warnings @ [key]) rest
            | Some metadata \<Rightarrow>
                resolve_total idx deps_of (List.insert key resolved) warnings
                  (rest @ filter (\<lambda>dep. dep \<notin> set (List.insert key resolved))
                                 (deps_of metadata))))"
  by pat_completeness auto
termination
proof (relation "inv_image (less_than <*lex*> less_than)
         (\<lambda>(idx, deps_of, resolved, warnings, to_process).
            (card (fst ` set idx - set resolved), length to_process))")
  show "wf (inv_image (less_than <*lex*> less_than)
         (\<lambda>(idx :: (string \<times> 'm) list, deps_of :: 'm \<Rightarrow> string list, resolved :: string list,
             warnings :: string list, to_process :: string list).
            (card (fst ` set idx - set resolved), length to_process)))"
    by (intro wf_inv_image wf_lex_prod wf_less_than)
next
  fix idx :: "(string \<times> 'm) list" and deps_of :: "'m \<Rightarrow> string list"
    and resolved warnings rest :: "string list" and key :: string and metadata :: 'm
  assume fresh: "key \<notin> set resolved" and found: "dict_get idx key = Some metadata"
  from found have "key \<in> fst ` set idx"
    by (metis dict_get_def domI dom_map_of_conv_image_fst)
  with fresh have "fst ` set idx - set (List.insert key resolved) \<subset> fst ` set idx - set resolved"
    by auto
  then have "card (fst ` set idx - set (List.insert key resolved))
               < card (fst ` set idx - set resolved)"
    by (intro psubset_card_mono) auto
  then show "((idx, deps_of, List.insert key resolved, warnings,
               rest @ filter (\<lambda>dep. dep \<notin> set (List.insert key resolved)) (deps_of metadata)),
              (idx, deps_of, resolved, warnings, key # rest))
             \<in> inv_image (less_than <*lex*> less_than)
                 (\<lambda>(idx, deps_of, resolved, warnings, to_process).
                    (card (fst ` set idx - set resolved), length to_process))"
    by simp
qed simp_all

text \<open>
  What the closure is: the keys of the index reached from a requested key of the index
  along dependency edges between keys of the index.
\<close>

definition dep_edges :: "(string \<times> 'm) list \<Rightarrow> ('m \<Rightarrow> string list) \<Rightarrow> (string \<times> string) set" where
  "dep_edges idx deps_of =
     {(k, d). \<exists>m. dict_get idx k = Some m \<and> d \<in> set (deps_of m) \<and> dict_contains idx d}"

definition closure :: "(string \<times> 'm) list \<Rightarrow> ('m \<Rightarrow> string list) \<Rightarrow> string set \<Rightarrow> string set" where
  "closure idx deps_of ks = (dep_edges idx deps_of)\<^sup>* `` {k \<in> ks. dict_contains idx k}"

definition absent_deps :: "(string \<times> 'm) list \<Rightarrow> ('m \<Rightarrow> string list) \<Rightarrow> string set \<Rightarrow> string set" where
  \<comment> \<open>the keys that entries under the keys \<open>ks\<close> refer to and that are not in the index\<close>
  "absent_deps idx deps_of ks =
     {d. \<exists>k \<in> ks. \<exists>m. dict_get idx k = Some m \<and> d \<in> set (deps_of m) \<and> \<not> dict_contains idx d}"

section \<open>The layout of a container file\<close>

definition versioned_layout :: "byteorder \<Rightarrow> string \<Rightarrow> bytes \<Rightarrow> bytes \<Rightarrow> bytes \<Rightarrow> bool" where
  \<comment> \<open>\<open>[MagicTag(8 bytes)][FormatVersion(u16)][IndexLength(u32)][Index bytes][Payload]\<close>\<close>
  "versioned_layout bo magic index_bytes payload file =
     (take 8 file = bytes_of magic
      \<and> pack_uint bo 2 VERSION = Inr (take 2 (drop 8 file))
      \<and> pack_uint bo 4 (int (length index_bytes)) = Inr (take 4 (drop 10 file))
      \<and> unpack_uint bo (take 4 (drop 10 file)) = int (length index_bytes)
      \<and> take (length index_bytes) (drop 14 file) = index_bytes
      \<and> drop (8 + 2 + 4 + length index_bytes) file = payload)"

definition unversioned_layout :: "byteorder \<Rightarrow> string \<Rightarrow> bytes \<Rightarrow> bytes \<Rightarrow> bytes \<Rightarrow> bool" where
  \<comment> \<open>\<open>[MagicTag(8 bytes)][IndexLength(u32)][Index bytes][Payload]\<close>\<close>
  "unversioned_layout bo magic index_bytes payload file =
     (take 8 file = bytes_of magic
      \<and> pack_uint bo 4 (int (length index_bytes)) = Inr (take 4 (drop 8 file))
      \<and> unpack_uint bo (take 4 (drop 8 file)) = int (length index_bytes)
      \<and> take (length index_bytes) (drop 12 file) = index_bytes
      \<and> drop (8 + 4 + length index_bytes) file = payload)"

section \<open>Concrete inputs\<close>

text \<open>
  An instance of the library parameters, small enough to evaluate the model on concrete
  inputs: three source paths exist, the archive of each is three or four bytes,
  compression puts the two header bytes \<open>78 9C\<close> in front, decompression takes off a
  header \<open>78\<close> followed by any of the four bytes that name a compression level, the
  digest is a short text that tells the three archives apart. The destination file
  system is the list of the paths created, newest first.
\<close>

definition example_env :: "string list env" where
  "example_env =
     \<lparr>path_exists = (\<lambda>p. p \<in> set [''src/lib'', ''src/web'', ''src/web2'']),
      tar_add = (\<lambda>p arcname. if p = ''src/lib'' then [0x6C, 0x69, 0x62]
                              else if p = ''src/web'' then [0x77, 0x65, 0x62]
                              else [0x77, 0x65, 0x62, 0x32]),
      walk_files = (\<lambda>p. [\<lparr>wf_rel_path = ''run.sh'', wf_filename = ''run.sh'', wf_size = 12,
                            wf_x_ok = True\<rparr>]),
      zlib_compress = (\<lambda>data level. 0x78 # 0x9C # data),
      zlib_decompress = (\<lambda>data. case data of
                           a # b # rest \<Rightarrow>
                             if a = 0x78 \<and> b \<in> set [0x01, 0x5E, 0x9C, 0xDA] then Some rest
                             else None
                         | _ \<Rightarrow> None),
      sha256_hexdigest = (\<lambda>data. if data = [0x6C, 0x69, 0x62] then ''6c6962''
                                   else if data = [0x77, 0x65, 0x62] then ''776562''
                                   else ''77656232''),
      makedirs = (\<lambda>p fs. (None, p # fs)),
      tar_extractall = (\<lambda>data p fs. (None, path_join p ''run.sh'' # fs)),
      max_seek = 2 ^ 43, max_read = 2 ^ 32\<rparr>"

definition example_time :: string where
  "example_time = ''2024-05-01T10:00:00''"

definition example_manager :: "AppMetadata builder" where
  \<comment> \<open>\<^verbatim>\<open>app_blob_manager.py\<close>: one application added to a new builder\<close>
  "example_manager =
     (case manager_add_application example_env new_builder ''web'' ''Web Server'' ''src/web''
             ''2.1.0'' None of
        Inr st \<Rightarrow> st | Inl e \<Rightarrow> new_builder)"

definition example_apps :: "AppMetadataB builder" where
  \<comment> \<open>\<^verbatim>\<open>app-blob-builder.py\<close>: one application added to a new builder\<close>
  "example_apps =
     snd (add_application example_env example_time new_builder ''web'' ''Web Server''
            ''src/web'' ''2.1.0'' None)"

definition example_request :: binary_request where
  "example_request =
     \<lparr>rq_now = example_time, rq_source_path = ''src/lib'', rq_provides = [''run.sh''],
      rq_version = ''1.0.0'', rq_description = [], rq_env_vars = None,
      rq_dependencies = None, rq_architecture = ''x86_64'', rq_os_type = ''linux''\<rparr>"

definition example_binaries :: "BinaryMetadata builder" where
  \<comment> \<open>\<^verbatim>\<open>binary-blob-builder.py\<close>: one package added to a new builder\<close>
  "example_binaries =
     snd (add_binary example_env example_time new_builder ''lib'' ''src/lib'' [''run.sh'']
            ''1.0.0'' [] None None ''x86_64'' ''linux'')"

definition example_users :: "UserMetadata builder" where
  \<comment> \<open>\<^verbatim>\<open>userdata-blob-builder.py\<close>: two users added to a new builder\<close>
  "example_users =
     snd (add_user example_env (example_time, example_time)
            (snd (add_user example_env (example_time, example_time) new_builder
                    ''alice'' ''src/web'' [] None))
            ''bob'' ''src/lib'' [] (Some 100))"

definition example_blob :: bytes where
  \<comment> \<open>the file \<open>build\<close> of \<^verbatim>\<open>app_blob_manager.py\<close> writes for \<open>example_manager\<close>\<close>
  "example_blob = snd (manager_build LittleEndian example_manager)"

definition example_extractor :: "AppMetadata extractor" where
  \<comment> \<open>the extractor as \<open>_load_index\<close> leaves it on that file: the payload region starts
      after 8 + 4 + 292 bytes\<close>
  "example_extractor =
     \<lparr>ex_index = index example_manager, data_offset = 304, blob_file = example_blob\<rparr>"

definition example_web :: AppMetadata where
  \<comment> \<open>the entry of that index under the key \<open>web\<close>\<close>
  "example_web =
     \<lparr>app_key = ''web'', app_name = ''Web Server'', app_version = ''2.1.0'', app_size = 3,
      app_compressed_size = 5, app_offset = 0, app_dependencies = [],
      app_files = [''run.sh''], app_checksum = ''776562''\<rparr>"

definition corrupt_extractor :: "AppMetadata extractor" where
  \<comment> \<open>the same, on a file whose first payload byte has been changed from 78 to 79: the
      slice is no stream any more\<close>
  "corrupt_extractor =
     example_extractor\<lparr>blob_file := take 304 example_blob @ [0x79, 0x9C, 0x77, 0x65, 0x62]\<rparr>"

definition relabelled_extractor :: "AppMetadata extractor" where
  \<comment> \<open>the same, on a file whose second payload byte has been changed from 9C to DA: the
      header names another compression level and the stream holds the same bytes\<close>
  "relabelled_extractor =
     example_extractor\<lparr>blob_file := take 304 example_blob @ [0x78, 0xDA, 0x77, 0x65, 0x62]\<rparr>"

definition stale_extractor :: "AppMetadata extractor" where
  \<comment> \<open>the same, on a file whose payload slice has been replaced by the compressed
      archive of \<open>src/lib\<close>, the index still holding the checksum of \<open>src/web\<close>\<close>
  "stale_extractor =
     example_extractor\<lparr>blob_file := take 304 example_blob @ [0x78, 0x9C, 0x6C, 0x69, 0x62]\<rparr>"

section \<open>Integrity of a stored payload slice\<close>


section \<open>Dependency scenarios\<close>

definition chain_index ::
  "(string \<times> 'm) list \<Rightarrow> ('m \<Rightarrow> string list) \<Rightarrow> string \<Rightarrow> string \<Rightarrow> string \<Rightarrow> bool" where
  \<comment> \<open>\<open>A\<close> depends on \<open>[B]\<close>, \<open>B\<close> depends on \<open>[C]\<close>, and \<open>C\<close> is an entry whose
      dependencies lead nowhere else: each is one of the three or is not in the index\<close>
  "chain_index idx deps_of A B C =
     (map_option deps_of (dict_get idx A) = Some [B]
      \<and> map_option deps_of (dict_get idx B) = Some [C]
      \<and> (case dict_get idx C of
            None \<Rightarrow> False
          | Some c \<Rightarrow> list_all (\<lambda>d. d \<in> {A, B, C} \<or> \<not> dict_contains idx d) (deps_of c)))"

definition missing_dep_index ::
  "(string \<times> 'm) list \<Rightarrow> ('m \<Rightarrow> string list) \<Rightarrow> string \<Rightarrow> string \<Rightarrow> bool" where
  \<comment> \<open>\<open>A\<close> depends on \<open>[Z]\<close> and \<open>Z\<close> is not in the index\<close>
  "missing_dep_index idx deps_of A Z =
     (map_option deps_of (dict_get idx A) = Some [Z] \<and> \<not> dict_contains idx Z)"

definition example_entry :: "string \<Rightarrow> string list \<Rightarrow> AppMetadata" where
  "example_entry k ds =
     \<lparr>app_key = k, app_name = k, app_version = ''1.0.0'', app_size = 3, app_compressed_size = 5,
      app_offset = 0, app_dependencies = ds, app_files = [], app_checksum = ''776562''\<rparr>"

definition example_chain :: "AppMetadata extractor" where
  \<comment> \<open>three applications, each depending on the next, and one more\<close>
  "example_chain =
     \<lparr>ex_index = [(''api'', example_entry ''api'' [''db-client'']),
                  (''db-client'', example_entry ''db-client'' [''shared-lib'']),
                  (''shared-lib'', example_entry ''shared-lib'' []),
                  (''webserver'', example_entry ''webserver'' [''ghost''])],
      data_offset = 304, blob_file = []\<rparr>"

definition example_long_chain :: "AppMetadata extractor" where
  \<comment> \<open>four applications, each of the first three depending on the next\<close>
  "example_long_chain =
     \<lparr>ex_index = [(''api'', example_entry ''api'' [''db-client'']),
                  (''db-client'', example_entry ''db-client'' [''shared-lib'']),
                  (''shared-lib'', example_entry ''shared-lib'' [''base'']),
                  (''base'', example_entry ''base'' [])],
      data_offset = 304, blob_file = []\<rparr>"

definition example_cycle :: "AppMetadata extractor" where
  \<comment> \<open>two applications depending on each other\<close>
  "example_cycle =
     \<lparr>ex_index = [(''a'', example_entry ''a'' [''b'']), (''b'', example_entry ''b'' [''a''])],
      data_offset = 304, blob_file = []\<rparr>"

definition example_binary_chain :: "BinaryMetadata builder" where
  \<comment> \<open>three binary packages, each depending on the next; the last one was stored
      without a \<open>dependencies\<close> key\<close>
  "example_binary_chain =
     \<lparr>index = map (\<lambda>(k, ds).
                (k, \<lparr>bin_key = k, bin_version = ''1.0.0'', bin_description = [], bin_size = 3,
                     bin_compressed_size = 5, bin_offset = 0, bin_checksum = ''6c6962'',
                     bin_provides = [], bin_executables = [], bin_libraries = [],
                     bin_dependencies = ds, bin_env_vars = [], bin_architecture = ''x86_64'',
                     bin_os_type = ''linux'', bin_created_at = example_time\<rparr>))
              [(''python'', Some [''openssl'']), (''openssl'', Some [''zlib'']), (''zlib'', None),
               (''git'', Some [''curl''])],
      blob_data = BytesIO [], current_offset = 0\<rparr>"

section \<open>Facts about the Python values\<close>

lemma dict_get_del_same: "dict_get (dict_del d k) k = None"
  by (simp add: dict_get_def dict_del_def AList.delete_conv)

lemma dict_contains_del_same: "\<not> dict_contains (dict_del d k) k"
  by (simp add: dict_contains_def dict_del_def AList.delete_conv)

lemma dict_keys_del: "set (dict_keys (dict_del d k)) = set (dict_keys d) - {k}"
  by (simp add: dict_keys_def dict_del_def AList.delete_keys)

lemma dict_get_set_same: "dict_get (dict_set d k v) k = Some v"
  by (simp add: dict_get_def dict_set_def AList.update_conv)

lemma dict_get_set_other: "k' \<noteq> k \<Longrightarrow> dict_get (dict_set d k v) k' = dict_get d k'"
  by (simp add: dict_get_def dict_set_def AList.update_conv)

lemma dict_contains_iff: "dict_contains d k \<longleftrightarrow> (\<exists>v. dict_get d k = Some v)"
  by (simp add: dict_contains_def dict_get_def)

lemma dict_contains_keys: "dict_contains d k \<longleftrightarrow> k \<in> set (dict_keys d)"
  by (simp add: dict_contains_def dict_keys_def map_of_eq_None_iff)

lemma dict_get_map_entry_same:
  "dict_get (AList.map_entry k f d) k = map_option f (dict_get d k)"
  by (simp add: dict_get_def AList.map_of_map_entry split: option.splits)

lemma dict_set_fresh: "\<not> dict_contains d k \<Longrightarrow> dict_set d k v = d @ [(k, v)]"
  by (induction d) (auto simp: dict_contains_def dict_set_def)

lemma length_bytes_of [simp]: "length (bytes_of s) = length s"
  by (simp add: bytes_of_def)

lemma length_le_bytes [simp]: "length (le_bytes k n) = k"
  by (induction k arbitrary: n) auto

lemma le_value_le_bytes: "le_value (le_bytes k n) = n mod 256 ^ k"
proof (induction k arbitrary: n)
  case 0
  then show ?case by simp
next
  case (Suc k)
  have "unat (of_nat (n mod 256) :: byte) = n mod 256"
    by (simp add: unat_of_nat)
  then have "le_value (le_bytes (Suc k) n) = n mod 256 + 256 * (n div 256 mod 256 ^ k)"
    by (simp add: Suc)
  also have "\<dots> = n mod 256 ^ Suc k"
    by (simp add: mod_mult2_eq)
  finally show ?case .
qed

lemma pack_uint_Inr:
  assumes "0 \<le> v" and "v < 2 ^ (8 * w)"
  shows "\<exists>bs. pack_uint bo w v = Inr bs \<and> length bs = w \<and> unpack_uint bo bs = v"
proof -
  have "(256::nat) ^ w = 2 ^ (8 * w)"
    by (simp add: power_mult)
  moreover have "nat v < 2 ^ (8 * w)"
    using assms by (simp add: nat_less_iff)
  ultimately have "nat v mod 256 ^ w = nat v"
    by simp
  then show ?thesis
    using assms by (cases bo) (simp_all add: pack_uint_def unpack_uint_def le_value_le_bytes)
qed

lemma pack_uint_Inl: "\<not> (0 \<le> v \<and> v < 2 ^ (8 * w)) \<Longrightarrow> pack_uint bo w v = Inl StructError"
  by (auto simp: pack_uint_def)

section \<open>The example inputs, evaluated\<close>

lemma example_path_exists:
  "path_exists example_env ''src/web''" "path_exists example_env ''src/lib''"
  "path_exists example_env ''src/web2''" "\<not> path_exists example_env ''missing''"
  by (simp_all add: example_env_def)

lemmas example_simps = example_env_def example_time_def new_builder_def BytesIO_def
  bytesio_write_def dict_contains_def dict_set_def Let_def

lemma example_manager_state:
  "example_manager =
     \<lparr>index =
        [(''web'',
          \<lparr>app_key = ''web'', app_name = ''Web Server'', app_version = ''2.1.0'', app_size = 3,
           app_compressed_size = 5, app_offset = 0, app_dependencies = [],
           app_files = [''run.sh''], app_checksum = ''776562''\<rparr>)],
      blob_data = \<lparr>buf = [0x78, 0x9C, 0x77, 0x65, 0x62], pos = 5\<rparr>,
      current_offset = 5\<rparr>"
  by (simp add: example_manager_def manager_add_application_def example_simps)

lemma example_apps_state:
  "example_apps =
     \<lparr>index =
        [(''web'',
          \<lparr>app_key = ''web'', app_name = ''Web Server'', app_version = ''2.1.0'', app_size = 3,
           app_compressed_size = 5, app_offset = 0, app_dependencies = [],
           app_files = [''run.sh''], app_checksum = ''776562'',
           app_created_at = ''2024-05-01T10:00:00''\<rparr>)],
      blob_data = \<lparr>buf = [0x78, 0x9C, 0x77, 0x65, 0x62], pos = 5\<rparr>,
      current_offset = 5\<rparr>"
  by (simp add: example_apps_def add_application_def example_simps)

lemma example_binaries_state:
  "example_binaries =
     \<lparr>index =
        [(''lib'',
          \<lparr>bin_key = ''lib'', bin_version = ''1.0.0'', bin_description = [], bin_size = 3,
           bin_compressed_size = 5, bin_offset = 0, bin_checksum = ''6c6962'',
           bin_provides = [''run.sh''], bin_executables = [''run.sh''], bin_libraries = [],
           bin_dependencies = Some [], bin_env_vars = [], bin_architecture = ''x86_64'',
           bin_os_type = ''linux'', bin_created_at = ''2024-05-01T10:00:00''\<rparr>)],
      blob_data = \<lparr>buf = [0x78, 0x9C, 0x6C, 0x69, 0x62], pos = 5\<rparr>,
      current_offset = 5\<rparr>"
  by (simp add: example_binaries_def add_binary_def example_simps str_endswith_def)

lemma example_users_state:
  "example_users =
     \<lparr>index =
        [(''alice'',
          \<lparr>usr_user_id = ''alice'', usr_description = [], usr_size = 3,
           usr_compressed_size = 5, usr_offset = 0, usr_file_count = 1,
           usr_files = [(''run.sh'', 12)], usr_checksum = ''776562'',
           usr_quota_mb = None, usr_created_at = ''2024-05-01T10:00:00'',
           usr_updated_at = ''2024-05-01T10:00:00'', usr_version = Some 1\<rparr>),
         (''bob'',
          \<lparr>usr_user_id = ''bob'', usr_description = [], usr_size = 3,
           usr_compressed_size = 5, usr_offset = 5, usr_file_count = 1,
           usr_files = [(''run.sh'', 12)], usr_checksum = ''6c6962'',
           usr_quota_mb = Some 100, usr_created_at = ''2024-05-01T10:00:00'',
           usr_updated_at = ''2024-05-01T10:00:00'', usr_version = Some 1\<rparr>)],
      blob_data = \<lparr>buf = [0x78, 0x9C, 0x77, 0x65, 0x62, 0x78, 0x9C, 0x6C, 0x69, 0x62], pos = 10\<rparr>,
      current_offset = 10\<rparr>"
  by (simp add: example_users_def add_user_def example_simps)

section \<open>The data store: update\<close>

lemma add_user_missing_source:
  "\<not> path_exists env source \<Longrightarrow> add_user env now st k source d q = (False, st)"
  by (simp add: add_user_def)

lemma add_user_fresh:
  assumes "\<not> dict_contains (index st) k" and "path_exists env source"
  shows "add_user env now st k source d q =
     (True, \<lparr>index = dict_set (index st) k
               \<lparr>usr_user_id = k, usr_description = d,
                usr_size = int (length (tar_add env source ''.'')),
                usr_compressed_size = int (length (zlib_compress env (tar_add env source ''.'') 6)),
                usr_offset = current_offset st,
                usr_file_count = int (length (walk_files env source)),
                usr_files = map (\<lambda>f. (wf_rel_path f, wf_size f)) (walk_files env source),
                usr_checksum = sha256_hexdigest env (tar_add env source ''.''),
                usr_quota_mb = q, usr_created_at = fst now, usr_updated_at = snd now,
                usr_version = Some 1\<rparr>,
             blob_data = bytesio_write (blob_data st) (zlib_compress env (tar_add env source ''.'') 6),
             current_offset = current_offset st
                + int (length (zlib_compress env (tar_add env source ''.'') 6))\<rparr>)"
  using assms by (simp add: add_user_def Let_def)

text \<open>
  C9. In \<open>update_user\<close>, both \<open>replace\<close> and \<open>merge\<close> delete the entry of the user before
  they call \<open>add_user\<close>. When the source path does not exist, \<open>add_user\<close> returns \<open>False\<close>,
  so the update returns \<open>False\<close> and the state it leaves is the old one without the user:
  the user is no longer in the index, nor among the listed keys.
\<close>

theorem update_user_missing_source:
  assumes "dict_contains (index st) k"
    and "\<not> path_exists env source"
    and "mode = ''replace'' \<or> mode = ''merge''"
  shows "update_user env now st k source mode = (False, st\<lparr>index := dict_del (index st) k\<rparr>)
         \<and> \<not> dict_contains (index (snd (update_user env now st k source mode))) k
         \<and> k \<notin> set (list_keys (snd (update_user env now st k source mode)))"
proof -
  from assms(1) obtain old where old: "dict_get (index st) k = Some old"
    by (auto simp: dict_contains_iff)
  have fail: "add_user env now (st\<lparr>index := dict_del (index st) k\<rparr>) k source [] None
                = (False, st\<lparr>index := dict_del (index st) k\<rparr>)"
    using assms(2) by (rule add_user_missing_source)
  have res: "update_user env now st k source mode = (False, st\<lparr>index := dict_del (index st) k\<rparr>)"
    using assms(3) old fail by (auto simp: update_user_def)
  show ?thesis
    by (simp add: res dict_contains_del_same list_keys_def dict_keys_del)
qed

theorem update_user_missing_source_witness:
  "dict_contains (index example_users) ''alice''
   \<and> \<not> path_exists example_env ''missing''
   \<and> update_user example_env (example_time, example_time) example_users ''alice'' ''missing''
        ''merge''
      = (False, example_users\<lparr>index := dict_del (index example_users) ''alice''\<rparr>)
   \<and> \<not> dict_contains (index (snd (update_user example_env (example_time, example_time)
                                    example_users ''alice'' ''missing'' ''merge''))) ''alice''
   \<and> ''alice'' \<notin> set (list_keys (snd (update_user example_env (example_time, example_time)
                                    example_users ''alice'' ''missing'' ''merge'')))"
proof -
  have h1: "dict_contains (index example_users) ''alice''"
    by (simp add: example_users_state dict_contains_def)
  have h2: "\<not> path_exists example_env ''missing''"
    by (rule example_path_exists)
  have h3: "''merge'' = ''replace'' \<or> ''merge'' = ''merge''"
    by simp
  from h1 h2 update_user_missing_source [OF h1 h2 h3] show ?thesis
    by blast
qed

text \<open>
  C6. When user \<open>k\<close> is stored with version counter \<open>v\<close> and the new source path exists
  (which is when the add inside the update succeeds), \<open>update_user\<close> in mode \<open>merge\<close>
  succeeds and the entry it leaves for \<open>k\<close> has version \<open>v + 1\<close> and the digest of the
  archive of the new source as its checksum.
\<close>

theorem update_user_merge_version_checksum:
  assumes "dict_get (index st) k = Some old"
    and "usr_version old = Some v"
    and "path_exists env source"
  shows "\<exists>st' m. update_user env now st k source ''merge'' = (True, st')
           \<and> dict_get (index st') k = Some m
           \<and> usr_version m = Some (v + 1)
           \<and> usr_checksum m = sha256_hexdigest env (tar_add env source ''.'')"
proof -
  let ?st1 = "st\<lparr>index := dict_del (index st) k\<rparr>"
  have fresh: "\<not> dict_contains (index ?st1) k"
    by (simp add: dict_contains_del_same)
  note add = add_user_fresh [OF fresh, of env source now "[]" None, OF assms(3)]
  show ?thesis
    using assms(1,2)
    by (simp add: update_user_def add dict_get_map_entry_same dict_get_set_same)
qed

theorem update_user_merge_version_checksum_witness:
  "dict_get (index example_users) ''bob'' = Some (snd (index example_users ! 1))
   \<and> usr_version (snd (index example_users ! 1)) = Some 1
   \<and> path_exists example_env ''src/web2''
   \<and> (\<exists>st' m. update_user example_env (example_time, example_time) example_users ''bob''
                ''src/web2'' ''merge'' = (True, st')
           \<and> dict_get (index st') ''bob'' = Some m
           \<and> usr_version m = Some (1 + 1)
           \<and> usr_checksum m = sha256_hexdigest example_env (tar_add example_env ''src/web2'' ''.''))"
proof -
  have h1: "dict_get (index example_users) ''bob'' = Some (snd (index example_users ! 1))"
    by (simp add: example_users_state dict_get_def)
  have h2: "usr_version (snd (index example_users ! 1)) = Some 1"
    by (simp add: example_users_state)
  have h3: "path_exists example_env ''src/web2''"
    by (rule example_path_exists)
  from h1 h2 h3 update_user_merge_version_checksum [OF h1 h2 h3] show ?thesis
    by blast
qed

section \<open>The container file\<close>

lemma versioned_container_result:
  assumes "length magic = 8"
  shows "(fst (versioned_container bo magic ib payload) = None \<longleftrightarrow> length ib < 2 ^ 32)
       \<and> (fst (versioned_container bo magic ib payload) = None \<longrightarrow>
            versioned_layout bo magic ib payload (snd (versioned_container bo magic ib payload)))"
proof -
  obtain v2 where v2: "pack_uint bo 2 VERSION = Inr v2" "length v2 = 2"
    using pack_uint_Inr [of VERSION 2 bo] by (auto simp: VERSION_def)
  show ?thesis
  proof (cases "length ib < 2 ^ 32")
    case True
    then have "int (length ib) < 2 ^ (8 * 4)" by simp
    then obtain l4 where l4: "pack_uint bo 4 (int (length ib)) = Inr l4" "length l4 = 4"
      "unpack_uint bo l4 = int (length ib)"
      using pack_uint_Inr [of "int (length ib)" 4 bo] by auto
    have written: "versioned_container bo magic ib payload
                  = (None, bytes_of magic @ v2 @ l4 @ ib @ payload)"
      by (simp add: versioned_container_def write_container_def v2 l4)
    show ?thesis
      using True assms v2 l4 by (simp add: written versioned_layout_def)
  next
    case False
    then have "pack_uint bo 4 (int (length ib)) = Inl StructError"
      by (intro pack_uint_Inl) simp
    then have "fst (versioned_container bo magic ib payload) = Some StructError"
      by (simp add: versioned_container_def write_container_def v2)
    with False show ?thesis by simp
  qed
qed

lemma manager_build_result:
  "(fst (manager_build bo st) = None \<longleftrightarrow> length (manager_index_bytes st) < 2 ^ 32)
   \<and> (fst (manager_build bo st) = None \<longrightarrow>
        unversioned_layout bo ''APPBLOB1'' (manager_index_bytes st) (getvalue (blob_data st))
          (snd (manager_build bo st)))"
proof (cases "length (manager_index_bytes st) < 2 ^ 32")
  case True
  then have "int (length (manager_index_bytes st)) < 2 ^ (8 * 4)" by simp
  then obtain l4 where l4: "pack_uint bo 4 (int (length (manager_index_bytes st))) = Inr l4"
      "length l4 = 4" "unpack_uint bo l4 = int (length (manager_index_bytes st))"
    using pack_uint_Inr [of "int (length (manager_index_bytes st))" 4 bo] by auto
  have written: "manager_build bo st
                = (None, bytes_of ''APPBLOB1'' @ l4 @ manager_index_bytes st @ getvalue (blob_data st))"
    by (simp add: manager_build_def write_container_def l4 Let_def)
  show ?thesis
    using True l4 by (simp add: written unversioned_layout_def)
next
  case False
  then have "pack_uint bo 4 (int (length (manager_index_bytes st))) = Inl StructError"
    by (intro pack_uint_Inl) simp
  then have "fst (manager_build bo st) = Some StructError"
    by (simp add: manager_build_def write_container_def Let_def)
  with False show ?thesis by simp
qed

lemma example_index_lengths:
  "length (manager_index_bytes example_manager) = 292"
  "length (app_index_bytes example_time example_apps) = 401"
  "length (binary_index_bytes example_time example_binaries) = 574"
  "length (userdata_index_bytes example_time example_users) = 939"
proof -
  show "length (manager_index_bytes example_manager) = 292"
    unfolding manager_index_bytes_def example_manager_state length_bytes_of builder.simps
    by code_simp
  show "length (app_index_bytes example_time example_apps) = 401"
    unfolding app_index_bytes_def example_apps_state length_bytes_of builder.simps
    by code_simp
  show "length (binary_index_bytes example_time example_binaries) = 574"
    unfolding binary_index_bytes_def example_binaries_state length_bytes_of builder.simps
    by code_simp
  show "length (userdata_index_bytes example_time example_users) = 939"
    unfolding userdata_index_bytes_def example_users_state length_bytes_of builder.simps
    by code_simp
qed

lemma example_manager_payload: "length (getvalue (blob_data example_manager)) = 5"
  by (simp add: example_manager_state getvalue_def)

text \<open>
  C1, as the code has it. A \<open>build\<close> completes exactly when the serialized index is shorter
  than \<open>2^32\<close> bytes (otherwise \<open>struct.pack('I', _)\<close> raises and the file stays truncated).
  The file a completed \<open>build\<close> writes in \<^verbatim>\<open>app-blob-builder.py\<close>, \<^verbatim>\<open>binary-blob-builder.py\<close>
  and \<^verbatim>\<open>userdata-blob-builder.py\<close> is the magic (8 bytes), the version as an unsigned 16-bit
  field, the index length as an unsigned 32-bit field, that many bytes of index, and the
  payload buffer from byte \<open>8 + 2 + 4 + IndexLength\<close> on. The file \<open>build\<close> writes in
  \<^verbatim>\<open>app_blob_manager.py\<close> has no version field: magic, index length, index, and the payload
  buffer from byte \<open>8 + 4 + IndexLength\<close> on.
\<close>

theorem build_layout:
  "(fst (app_build bo now sa) = None \<longrightarrow>
      versioned_layout bo ''APPBLOB1'' (app_index_bytes now sa) (getvalue (blob_data sa))
        (snd (app_build bo now sa)))
   \<and> (fst (binary_build bo now sb) = None \<longrightarrow>
      versioned_layout bo ''BINBLOB1'' (binary_index_bytes now sb) (getvalue (blob_data sb))
        (snd (binary_build bo now sb)))
   \<and> (fst (userdata_build bo now su) = None \<longrightarrow>
      versioned_layout bo ''USERBLOB'' (userdata_index_bytes now su) (getvalue (blob_data su))
        (snd (userdata_build bo now su)))
   \<and> (fst (manager_build bo sm) = None \<longrightarrow>
      unversioned_layout bo ''APPBLOB1'' (manager_index_bytes sm) (getvalue (blob_data sm))
        (snd (manager_build bo sm)))
   \<and> (fst (app_build bo now sa) = None \<longleftrightarrow> length (app_index_bytes now sa) < 2 ^ 32)
   \<and> (fst (binary_build bo now sb) = None \<longleftrightarrow> length (binary_index_bytes now sb) < 2 ^ 32)
   \<and> (fst (userdata_build bo now su) = None \<longleftrightarrow> length (userdata_index_bytes now su) < 2 ^ 32)
   \<and> (fst (manager_build bo sm) = None \<longleftrightarrow> length (manager_index_bytes sm) < 2 ^ 32)"
  using versioned_container_result [of "''APPBLOB1''" bo "app_index_bytes now sa" "getvalue (blob_data sa)"]
    versioned_container_result [of "''BINBLOB1''" bo "binary_index_bytes now sb" "getvalue (blob_data sb)"]
    versioned_container_result [of "''USERBLOB''" bo "userdata_index_bytes now su" "getvalue (blob_data su)"]
    manager_build_result [of bo sm]
  by (simp add: app_build_def binary_build_def userdata_build_def)

theorem build_layout_witness:
  "fst (app_build LittleEndian example_time example_apps) = None
   \<and> fst (binary_build LittleEndian example_time example_binaries) = None
   \<and> fst (userdata_build LittleEndian example_time example_users) = None
   \<and> fst (manager_build LittleEndian example_manager) = None
   \<and> versioned_layout LittleEndian ''APPBLOB1'' (app_index_bytes example_time example_apps)
        (getvalue (blob_data example_apps))
        (snd (app_build LittleEndian example_time example_apps))
   \<and> versioned_layout LittleEndian ''BINBLOB1''
        (binary_index_bytes example_time example_binaries)
        (getvalue (blob_data example_binaries))
        (snd (binary_build LittleEndian example_time example_binaries))
   \<and> versioned_layout LittleEndian ''USERBLOB'' (userdata_index_bytes example_time example_users)
        (getvalue (blob_data example_users))
        (snd (userdata_build LittleEndian example_time example_users))
   \<and> unversioned_layout LittleEndian ''APPBLOB1'' (manager_index_bytes example_manager)
        (getvalue (blob_data example_manager))
        (snd (manager_build LittleEndian example_manager))"
proof -
  note all = build_layout [of LittleEndian example_time example_apps example_binaries
      example_users example_manager]
  have a: "fst (app_build LittleEndian example_time example_apps) = None"
    using all by (simp add: example_index_lengths)
  have b: "fst (binary_build LittleEndian example_time example_binaries) = None"
    using all by (simp add: example_index_lengths)
  have u: "fst (userdata_build LittleEndian example_time example_users) = None"
    using all by (simp add: example_index_lengths)
  have m: "fst (manager_build LittleEndian example_manager) = None"
    using all by (simp add: example_index_lengths)
  from all a b u m show ?thesis
    by blast
qed

text \<open>
  C1 as stated fails on \<^verbatim>\<open>app_blob_manager.py\<close>: the file built after one
  \<open>add_application\<close> on a new builder does not have the layout with the version field,
  for its payload region starts two bytes earlier.
\<close>

theorem manager_build_not_versioned:
  "\<not> versioned_layout LittleEndian ''APPBLOB1'' (manager_index_bytes example_manager)
       (getvalue (blob_data example_manager))
       (snd (manager_build LittleEndian example_manager))"
proof
  let ?file = "snd (manager_build LittleEndian example_manager)"
  assume v: "versioned_layout LittleEndian ''APPBLOB1'' (manager_index_bytes example_manager)
       (getvalue (blob_data example_manager)) ?file"
  have "fst (manager_build LittleEndian example_manager) = None"
    using manager_build_result [of LittleEndian example_manager]
    by (simp add: example_index_lengths)
  then have "unversioned_layout LittleEndian ''APPBLOB1'' (manager_index_bytes example_manager)
       (getvalue (blob_data example_manager)) ?file"
    using manager_build_result [of LittleEndian example_manager] by blast
  then have "length (drop (12 + 292) ?file) = 5"
    by (simp add: unversioned_layout_def example_index_lengths example_manager_payload)
  moreover from v have "length (drop (14 + 292) ?file) = 5"
    by (simp add: versioned_layout_def example_index_lengths example_manager_payload)
  ultimately show False
    by simp
qed

section \<open>The data store: removal and rebuild\<close>

lemma versioned_layout_length:
  assumes "versioned_layout bo magic ib payload file"
  shows "length file = 14 + length ib + length payload"
proof -
  from assms have t: "take (length ib) (drop 14 file) = ib"
    and d: "drop (8 + 2 + 4 + length ib) file = payload"
    by (simp_all add: versioned_layout_def)
  from t have "length (take (length ib) (drop 14 file)) = length ib"
    by simp
  then have le: "length ib \<le> length file - 14"
    by simp
  from assms obtain l4 where l4: "pack_uint bo 4 (int (length ib)) = Inr l4"
      "l4 = take 4 (drop 10 file)"
    by (auto simp: versioned_layout_def)
  from l4(1) have "length l4 = 4"
    by (auto simp: pack_uint_def split: if_splits byteorder.splits)
  with l4(2) have "14 \<le> length file"
    by auto
  with le have "14 + length ib \<le> length file"
    by simp
  with d show ?thesis
    by auto
qed

lemma userdata_build_length:
  assumes "fst (userdata_build bo now st) = None"
  shows "length (snd (userdata_build bo now st))
           = 14 + length (userdata_index_bytes now st) + length (getvalue (blob_data st))"
    and "versioned_layout bo ''USERBLOB'' (userdata_index_bytes now st) (getvalue (blob_data st))
           (snd (userdata_build bo now st))"
proof -
  show l: "versioned_layout bo ''USERBLOB'' (userdata_index_bytes now st)
             (getvalue (blob_data st)) (snd (userdata_build bo now st))"
    using assms
      versioned_container_result [of "''USERBLOB''" bo "userdata_index_bytes now st"
        "getvalue (blob_data st)"]
    by (simp add: userdata_build_def)
  show "length (snd (userdata_build bo now st))
           = 14 + length (userdata_index_bytes now st) + length (getvalue (blob_data st))"
    by (rule versioned_layout_length [OF l])
qed

lemma userdata_build_completes:
  "length (userdata_index_bytes now st) < 2 ^ 32 \<Longrightarrow> fst (userdata_build bo now st) = None"
  using versioned_container_result [of "''USERBLOB''" bo "userdata_index_bytes now st"
      "getvalue (blob_data st)"]
  by (simp add: userdata_build_def)

lemma remove_user_present:
  "dict_contains (index st) k \<Longrightarrow> remove_user st k = (True, st\<lparr>index := dict_del (index st) k\<rparr>)"
  by (simp add: remove_user_def)

lemma example_removed_state:
  "snd (remove_user example_users ''bob'') =
     \<lparr>index =
        [(''alice'',
          \<lparr>usr_user_id = ''alice'', usr_description = [], usr_size = 3,
           usr_compressed_size = 5, usr_offset = 0, usr_file_count = 1,
           usr_files = [(''run.sh'', 12)], usr_checksum = ''776562'',
           usr_quota_mb = None, usr_created_at = ''2024-05-01T10:00:00'',
           usr_updated_at = ''2024-05-01T10:00:00'', usr_version = Some 1\<rparr>)],
      blob_data = \<lparr>buf = [0x78, 0x9C, 0x77, 0x65, 0x62, 0x78, 0x9C, 0x6C, 0x69, 0x62], pos = 10\<rparr>,
      current_offset = 10\<rparr>"
  by (simp add: remove_user_def example_users_state dict_contains_def dict_del_def)

lemma example_removed_index_length:
  "length (userdata_index_bytes example_time (snd (remove_user example_users ''bob''))) = 532"
  unfolding userdata_index_bytes_def example_removed_state length_bytes_of builder.simps
  by code_simp

subsection \<open>The length of the serialized index\<close>

lemma length_join:
  "length (join sep xs) = sum_list (map length xs) + (length xs - 1) * length sep"
  by (induction sep xs rule: join.induct) simp_all

lemma dumps_object_length:
  assumes "kvs \<noteq> []"
  shows "length (dumps lvl (JObj kvs))
       = 4 * lvl + 6
         + sum_list (map (\<lambda>kv. length (json_string (fst kv)) + 2
                                + length (dumps (Suc lvl) (snd kv))) kvs)
         + (length kvs - 1) * (2 * lvl + 4)"
  using assms
  by (simp add: length_join newline_indent_def comp_def case_prod_beta algebra_simps)

lemma json_string_length: "2 \<le> length (json_string s)"
  by (simp add: json_string_def)

lemma user_json_length: "6 \<le> length (dumps lvl (user_json m))"
proof -
  obtain kv kvs where "user_json m = JObj (kv # kvs)"
    by (simp add: user_json_def)
  then show ?thesis
    using dumps_object_length [of "kv # kvs" lvl] by simp
qed

lemma sum_list_filter_le:
  fixes h :: "'a \<Rightarrow> nat"
  shows "sum_list (map h (filter P xs)) \<le> sum_list (map h xs)"
  by (induction xs) auto

lemma sum_list_filter_drop:
  fixes h :: "'a \<Rightarrow> nat"
  assumes "x \<in> set xs" and "\<not> P x"
  shows "sum_list (map h (filter P xs)) + h x \<le> sum_list (map h xs)"
  using assms
proof (induction xs)
  case Nil
  then show ?case by simp
next
  case (Cons y ys)
  show ?case
  proof (cases "x = y")
    case True
    with Cons.prems sum_list_filter_le [of h P ys] show ?thesis
      by simp
  next
    case False
    with Cons have "sum_list (map h (filter P ys)) + h x \<le> sum_list (map h ys)"
      by simp
    then show ?thesis
      by simp
  qed
qed

lemma users_delete_length:
  assumes "dict_contains idx k"
  shows "length (dumps 1 (JObj (map (\<lambda>(k, m). (k, user_json m)) (dict_del idx k)))) + 10
           \<le> length (dumps 1 (JObj (map (\<lambda>(k, m). (k, user_json m)) idx)))"
proof -
  let ?f = "\<lambda>(k, m). (k, user_json m)"
  let ?P = "\<lambda>(k', m :: UserMetadata). k \<noteq> k'"
  define h where "h = (\<lambda>km :: string \<times> UserMetadata.
      length (json_string (fst (?f km))) + 2 + length (dumps (Suc 1) (snd (?f km))))"
  have del: "dict_del idx k = filter ?P idx"
    by (simp add: dict_del_def AList.delete_eq)
  from assms obtain x where x: "x \<in> set idx" "fst x = k"
    by (auto simp: dict_contains_def map_of_eq_None_iff)
  have nP: "\<not> ?P x"
    using x(2) by (simp add: case_prod_beta)
  have hx: "10 \<le> h x"
    using json_string_length [of "fst x"] user_json_length [of "Suc 1" "snd x"]
    by (cases x) (simp add: h_def)
  have drop: "sum_list (map h (filter ?P idx)) + h x \<le> sum_list (map h idx)"
    using x(1) nP by (rule sum_list_filter_drop [of x idx ?P h])
  have ne: "idx \<noteq> []"
    using x by auto
  have full: "length (dumps 1 (JObj (map ?f idx)))
                = 10 + sum_list (map h idx) + (length idx - 1) * 6"
    using ne dumps_object_length [of "map ?f idx" 1]
    by (simp add: h_def comp_def)
  show ?thesis
  proof (cases "filter ?P idx = []")
    case True
    then have "length (dumps 1 (JObj (map ?f (dict_del idx k)))) = 2"
      by (simp add: del)
    with full drop hx show ?thesis
      by simp
  next
    case False
    then have "length (dumps 1 (JObj (map ?f (dict_del idx k))))
                = 10 + sum_list (map h (filter ?P idx)) + (length (filter ?P idx) - 1) * 6"
      using dumps_object_length [of "map ?f (filter ?P idx)" 1]
      by (simp add: del h_def comp_def)
    moreover have "length (filter ?P idx) - 1 \<le> length idx - 1"
      by (intro diff_le_mono length_filter_le)
    then have "(length (filter ?P idx) - 1) * 6 \<le> (length idx - 1) * 6"
      by simp
    ultimately show ?thesis
      using full drop hx by simp
  qed
qed

lemma dec_nat_length_mono:
  "m \<le> n \<Longrightarrow> length (dec_nat m) \<le> length (dec_nat n)"
proof (induction n arbitrary: m rule: dec_nat.induct)
  case (1 n)
  show ?case
  proof (cases "n < 10")
    case True
    with "1.prems" have "m < 10"
      by simp
    with True show ?thesis
      by (simp add: dec_nat.simps [of m] dec_nat.simps [of n])
  next
    case False
    show ?thesis
    proof (cases "m < 10")
      case True
      with False show ?thesis
        by (simp add: dec_nat.simps [of m] dec_nat.simps [of n])
    next
      case m: False
      from "1.prems" have "m div 10 \<le> n div 10"
        by (rule div_le_mono)
      from "1.IH" [OF False this] False m show ?thesis
        by (simp add: dec_nat.simps [of m] dec_nat.simps [of n])
    qed
  qed
qed

lemma index_object_length_diff:
  "int (length (dumps 0 (JObj [(a, A), (b, B), (c, JStr now'), (d, JInt n'), (e, X')])))
     - int (length (dumps 0 (JObj [(a, A), (b, B), (c, JStr now), (d, JInt n), (e, X)])))
   = (int (length (json_string now')) - int (length (json_string now)))
     + (int (length (dec_int n')) - int (length (dec_int n)))
     + (int (length (dumps 1 X')) - int (length (dumps 1 X)))"
  by (simp add: newline_indent_def)

lemma userdata_index_shorter:
  assumes "dict_contains (index st) k"
    and "length (json_string now') \<le> length (json_string now) + 7"
  shows "length (userdata_index_bytes now' (st\<lparr>index := dict_del (index st) k\<rparr>))
           < length (userdata_index_bytes now st)"
proof -
  let ?f = "\<lambda>(k, m). (k, user_json m)"
  let ?idx = "index st"
  let ?idx' = "dict_del (index st) k"
  have "length ?idx' \<le> length ?idx"
    by (simp add: dict_del_def AList.delete_eq)
  then have cnt: "length (dec_int (int (length ?idx'))) \<le> length (dec_int (int (length ?idx)))"
    by (simp add: dec_int_def dec_nat_length_mono)
  note users = users_delete_length [OF assms(1)]
  have sel: "index (st\<lparr>index := ?idx'\<rparr>) = ?idx'"
    by simp
  have "int (length (userdata_index_bytes now' (st\<lparr>index := ?idx'\<rparr>)))
          - int (length (userdata_index_bytes now st))
        = (int (length (json_string now')) - int (length (json_string now)))
          + (int (length (dec_int (int (length ?idx')))) - int (length (dec_int (int (length ?idx)))))
          + (int (length (dumps 1 (JObj (map ?f ?idx')))) - int (length (dumps 1 (JObj (map ?f ?idx)))))"
    unfolding userdata_index_bytes_def json_dumps_def length_bytes_of sel
    by (rule index_object_length_diff)
  with assms(2) cnt users show ?thesis
    by linarith
qed

text \<open>
  C7, as the code has it. After \<open>remove_user k\<close> the key is no longer listed. The file a
  following \<open>build\<close> writes has the whole payload buffer as its payload region, the
  bytes of the removed entry included: \<open>remove_user\<close> does not touch the buffer. The index
  is serialized without the entry, so the size of the file changes by exactly what the
  length of the serialized index changes by (\<open>now\<close> and \<open>now'\<close> are the clock readings of
  the build before the removal, whose file was loaded, and of the build after it). The
  text of the removed entry is longer than what the two renderings of the clock can
  differ by: \<open>datetime.now().isoformat()\<close> has 19 characters when the microsecond is 0
  and 26 otherwise, none of them escaped, so the later rendering is at most 7
  characters longer, and then the rewritten file is strictly shorter than the file
  built before the removal.
\<close>

theorem remove_user_then_build:
  assumes "dict_contains (index st) k"
    and "fst (userdata_build bo now st) = None"
    and "fst (userdata_build bo now' (snd (remove_user st k))) = None"
  shows "fst (remove_user st k)
       \<and> k \<notin> set (list_keys (snd (remove_user st k)))
       \<and> versioned_layout bo ''USERBLOB'' (userdata_index_bytes now' (snd (remove_user st k)))
            (getvalue (blob_data st)) (snd (userdata_build bo now' (snd (remove_user st k))))
       \<and> int (length (snd (userdata_build bo now' (snd (remove_user st k)))))
            - int (length (snd (userdata_build bo now st)))
          = int (length (userdata_index_bytes now' (snd (remove_user st k))))
            - int (length (userdata_index_bytes now st))
       \<and> (length (json_string now') \<le> length (json_string now) + 7 \<longrightarrow>
            length (snd (userdata_build bo now' (snd (remove_user st k))))
              < length (snd (userdata_build bo now st)))"
proof -
  let ?st' = "st\<lparr>index := dict_del (index st) k\<rparr>"
  have r: "remove_user st k = (True, ?st')"
    using assms(1) by (rule remove_user_present)
  have b: "fst (userdata_build bo now' ?st') = None"
    using assms(3) by (simp add: r)
  have same: "blob_data ?st' = blob_data st"
    by simp
  have main: "fst (remove_user st k)
       \<and> k \<notin> set (list_keys (snd (remove_user st k)))
       \<and> versioned_layout bo ''USERBLOB'' (userdata_index_bytes now' (snd (remove_user st k)))
            (getvalue (blob_data st)) (snd (userdata_build bo now' (snd (remove_user st k))))
       \<and> int (length (snd (userdata_build bo now' (snd (remove_user st k)))))
            - int (length (snd (userdata_build bo now st)))
          = int (length (userdata_index_bytes now' (snd (remove_user st k))))
            - int (length (userdata_index_bytes now st))"
    using same userdata_build_length [OF b] userdata_build_length(1) [OF assms(2)]
    by (simp add: r list_keys_def dict_keys_del)
  have shorter: "length (snd (userdata_build bo now' (snd (remove_user st k))))
              < length (snd (userdata_build bo now st))"
    if ts: "length (json_string now') \<le> length (json_string now) + 7"
  proof -
    have "length (userdata_index_bytes now' ?st') < length (userdata_index_bytes now st)"
      by (rule userdata_index_shorter [OF assms(1) ts])
    with same userdata_build_length(1) [OF b] userdata_build_length(1) [OF assms(2)]
    show ?thesis
      by (simp add: r)
  qed
  from main shorter show ?thesis
    by simp
qed

theorem remove_user_then_build_witness:
  "dict_contains (index example_users) ''bob''
   \<and> fst (userdata_build LittleEndian example_time example_users) = None
   \<and> fst (userdata_build LittleEndian example_time (snd (remove_user example_users ''bob''))) = None
   \<and> length (json_string example_time) \<le> length (json_string example_time) + 7
   \<and> fst (remove_user example_users ''bob'')
   \<and> ''bob'' \<notin> set (list_keys (snd (remove_user example_users ''bob'')))
   \<and> versioned_layout LittleEndian ''USERBLOB''
        (userdata_index_bytes example_time (snd (remove_user example_users ''bob'')))
        (getvalue (blob_data example_users))
        (snd (userdata_build LittleEndian example_time (snd (remove_user example_users ''bob''))))
   \<and> int (length (snd (userdata_build LittleEndian example_time
                          (snd (remove_user example_users ''bob'')))))
        - int (length (snd (userdata_build LittleEndian example_time example_users)))
      = int (length (userdata_index_bytes example_time (snd (remove_user example_users ''bob''))))
        - int (length (userdata_index_bytes example_time example_users))
   \<and> length (snd (userdata_build LittleEndian example_time
                     (snd (remove_user example_users ''bob''))))
       < length (snd (userdata_build LittleEndian example_time example_users))"
proof -
  have h1: "dict_contains (index example_users) ''bob''"
    by (simp add: example_users_state dict_contains_def)
  have h2: "fst (userdata_build LittleEndian example_time example_users) = None"
    by (rule userdata_build_completes) (simp add: example_index_lengths)
  have h3: "fst (userdata_build LittleEndian example_time
                   (snd (remove_user example_users ''bob''))) = None"
    by (rule userdata_build_completes) (simp add: example_removed_index_length)
  have h4: "length (json_string example_time) \<le> length (json_string example_time) + 7"
    by simp
  note t = remove_user_then_build [OF h1 h2 h3]
  note t1 = t [THEN conjunct1]
  note t2 = t [THEN conjunct2, THEN conjunct1]
  note t3 = t [THEN conjunct2, THEN conjunct2, THEN conjunct1]
  note t4 = t [THEN conjunct2, THEN conjunct2, THEN conjunct2, THEN conjunct1]
  note t5 = t [THEN conjunct2, THEN conjunct2, THEN conjunct2, THEN conjunct2, THEN mp, OF h4]
  from h1 h2 h3 h4 t1 t2 t3 t4 t5 show ?thesis
    by (intro conjI)
qed

text \<open>
  C7 as stated fails: with users \<open>alice\<close> and \<open>bob\<close> stored, the file built after the
  removal of \<open>bob\<close> is 407 bytes shorter than the file built before it (556 against 963
  bytes), the payload region being the same 10 bytes in both.
\<close>

theorem remove_user_file_shrinks:
  "length (snd (userdata_build LittleEndian example_time (snd (remove_user example_users ''bob''))))
     = 556
   \<and> length (snd (userdata_build LittleEndian example_time example_users)) = 963
   \<and> length (snd (userdata_build LittleEndian example_time (snd (remove_user example_users ''bob''))))
     < length (snd (userdata_build LittleEndian example_time example_users))"
proof -
  have h2: "fst (userdata_build LittleEndian example_time example_users) = None"
    by (rule userdata_build_completes) (simp add: example_index_lengths)
  have h3: "fst (userdata_build LittleEndian example_time
                   (snd (remove_user example_users ''bob''))) = None"
    by (rule userdata_build_completes) (simp add: example_removed_index_length)
  have "length (getvalue (blob_data (snd (remove_user example_users ''bob'')))) = 10"
    by (simp add: example_removed_state getvalue_def)
  moreover have "length (getvalue (blob_data example_users)) = 10"
    by (simp add: example_users_state getvalue_def)
  ultimately show ?thesis
    using userdata_build_length(1) [OF h2] userdata_build_length(1) [OF h3]
    by (simp add: example_index_lengths example_removed_index_length)
qed

section \<open>Extraction\<close>

lemma example_blob_split:
  "length (take 304 example_blob) = 304" "drop 304 example_blob = [0x78, 0x9C, 0x77, 0x65, 0x62]"
proof -
  have "fst (manager_build LittleEndian example_manager) = None"
    using manager_build_result [of LittleEndian example_manager]
    by (simp add: example_index_lengths)
  then have l: "unversioned_layout LittleEndian ''APPBLOB1'' (manager_index_bytes example_manager)
       (getvalue (blob_data example_manager)) example_blob"
    using manager_build_result [of LittleEndian example_manager]
    by (simp add: example_blob_def)
  then have "drop (8 + 4 + length (manager_index_bytes example_manager)) example_blob
               = getvalue (blob_data example_manager)"
    by (simp add: unversioned_layout_def)
  then have "drop 304 example_blob = getvalue (blob_data example_manager)"
    by (simp add: example_index_lengths)
  then show d: "drop 304 example_blob = [0x78, 0x9C, 0x77, 0x65, 0x62]"
    by (simp add: example_manager_state getvalue_def)
  have "length (drop 304 example_blob) = 5"
    by (simp only: d) simp
  then show "length (take 304 example_blob) = 304"
    by simp
qed

lemma example_extractor_entry:
  "dict_get (ex_index example_extractor) ''web'' = Some example_web"
  "dict_get (ex_index corrupt_extractor) ''web'' = Some example_web"
  "dict_get (ex_index relabelled_extractor) ''web'' = Some example_web"
  "dict_get (ex_index stale_extractor) ''web'' = Some example_web"
  by (simp_all add: corrupt_extractor_def relabelled_extractor_def stale_extractor_def
      example_extractor_def example_manager_state dict_get_def example_web_def)

lemma example_web_slice:
  "data_offset ex + app_offset example_web = data_offset ex"
  "app_compressed_size example_web = 5"
  "app_checksum example_web = ''776562''"
  by (simp_all add: example_web_def)

lemma read_at_example:
  assumes "length pre = 304"
  shows "read_at example_env (pre @ payload) 304 5 = Inr (take 5 payload)"
  using assms by (simp add: read_at_def example_env_def)




lemma stale_extractor_slice:
  "read_at example_env (blob_file stale_extractor) (data_offset stale_extractor) 5
     = Inr [0x78, 0x9C, 0x6C, 0x69, 0x62]"
  using read_at_example [OF example_blob_split(1), of "[0x78, 0x9C, 0x6C, 0x69, 0x62]"]
  by (simp add: stale_extractor_def example_extractor_def)

lemma example_decompress:
  "zlib_decompress example_env [0x78, 0x9C, 0x77, 0x65, 0x62] = Some [0x77, 0x65, 0x62]"
  "zlib_decompress example_env [0x78, 0xDA, 0x77, 0x65, 0x62] = Some [0x77, 0x65, 0x62]"
  "zlib_decompress example_env [0x78, 0x9C, 0x6C, 0x69, 0x62] = Some [0x6C, 0x69, 0x62]"
  "zlib_decompress example_env [0x79, 0x9C, 0x77, 0x65, 0x62] = None"
  "sha256_hexdigest example_env [0x77, 0x65, 0x62] = ''776562''"
  "sha256_hexdigest example_env [0x6C, 0x69, 0x62] = ''6c6962''"
  by (simp_all add: example_env_def)


lemma dict_get_map_values:
  "dict_get (map (\<lambda>(k, m). (k, f m)) idx) key = map_option f (dict_get idx key)"
  by (induction idx) (auto simp: dict_get_def)

text \<open>
  C2 against the code. \<open>extract_to_memory\<close> of \<^verbatim>\<open>app_blob_manager.py\<close> returns whatever the
  slice decompresses to and never looks at the stored checksum, although \<open>cmd_verify\<close> of
  \<^verbatim>\<open>app_blob_cli.py\<close> calls it under the comment "This will verify checksum". Whatever the
  libraries and the file are: when the slice of an entry can be read and decompresses to
  bytes whose digest is not the stored checksum, \<open>extract_to_memory\<close> returns these bytes,
  where \<open>extract_application\<close> with verification returns \<open>False\<close> and leaves the destination
  as it was; and putting any other checksum \<open>c\<close> into the index does not change what
  \<open>extract_to_memory\<close> returns.
\<close>

theorem extract_to_memory_skips_checksum:
  assumes "dict_get (ex_index ex) key = Some metadata"
    and "read_at env (blob_file ex) (data_offset ex + app_offset metadata)
           (app_compressed_size metadata) = Inr compressed_data"
    and "zlib_decompress env compressed_data = Some tar_data"
    and "sha256_hexdigest env tar_data \<noteq> app_checksum metadata"
  shows "extract_to_memory env ex key = Inr (Some tar_data)
       \<and> extract_application env ex key target_dir True fs = (Inr False, fs)
       \<and> extract_to_memory env
            (ex\<lparr>ex_index := map (\<lambda>(k, m). (k, m\<lparr>app_checksum := c\<rparr>)) (ex_index ex)\<rparr>) key
          = extract_to_memory env ex key"
  using assms
  by (simp add: extract_to_memory_def extract_application_def dict_get_map_values)

theorem extract_to_memory_skips_checksum_witness:
  "dict_get (ex_index stale_extractor) ''web'' = Some example_web
   \<and> read_at example_env (blob_file stale_extractor)
        (data_offset stale_extractor + app_offset example_web) (app_compressed_size example_web)
       = Inr [0x78, 0x9C, 0x6C, 0x69, 0x62]
   \<and> zlib_decompress example_env [0x78, 0x9C, 0x6C, 0x69, 0x62] = Some [0x6C, 0x69, 0x62]
   \<and> sha256_hexdigest example_env [0x6C, 0x69, 0x62] = ''6c6962''
   \<and> app_checksum example_web = ''776562''
   \<and> extract_to_memory example_env stale_extractor ''web'' = Inr (Some [0x6C, 0x69, 0x62])
   \<and> extract_application example_env stale_extractor ''web'' ''out'' True [] = (Inr False, [])"
proof -
  have h1: "dict_get (ex_index stale_extractor) ''web'' = Some example_web"
    by (rule example_extractor_entry)
  have h2: "read_at example_env (blob_file stale_extractor)
        (data_offset stale_extractor + app_offset example_web) (app_compressed_size example_web)
       = Inr [0x78, 0x9C, 0x6C, 0x69, 0x62]"
    by (simp only: example_web_slice stale_extractor_slice)
  have h3: "zlib_decompress example_env [0x78, 0x9C, 0x6C, 0x69, 0x62] = Some [0x6C, 0x69, 0x62]"
    by (rule example_decompress)
  have h4: "sha256_hexdigest example_env [0x6C, 0x69, 0x62] \<noteq> app_checksum example_web"
    by (simp add: example_decompress example_web_slice)
  note t = extract_to_memory_skips_checksum [OF h1 h2 h3 h4, of "''out''" "[]" "[]"]
  have h5: "sha256_hexdigest example_env [0x6C, 0x69, 0x62] = ''6c6962''"
    by (rule example_decompress)
  have h6: "app_checksum example_web = ''776562''"
    by (rule example_web_slice)
  from h1 h2 h3 h5 h6 t [THEN conjunct1] t [THEN conjunct2, THEN conjunct1] show ?thesis
    by (intro conjI)
qed




section \<open>Adding under a key that exists\<close>

lemma add_binary_existing:
  "dict_contains (index st) key \<Longrightarrow>
     add_binary env now st key source_path provides version description env_vars dependencies
       architecture os_type = (False, st)"
  by (simp add: add_binary_def)

lemma add_application_result:
  assumes "path_exists env path"
  shows "add_application env now st key name path version dependencies =
     (True, \<lparr>index = dict_set (index st) key
               \<lparr>app_key = key, app_name = name, app_version = version,
                app_size = int (length (tar_add env path ''.'')),
                app_compressed_size = int (length (zlib_compress env (tar_add env path ''.'') 6)),
                app_offset = current_offset st,
                app_dependencies = (case dependencies of None \<Rightarrow> [] | Some ds \<Rightarrow> ds),
                app_files = map wf_rel_path (walk_files env path),
                app_checksum = sha256_hexdigest env (tar_add env path ''.''),
                app_created_at = now\<rparr>,
             blob_data = bytesio_write (blob_data st) (zlib_compress env (tar_add env path ''.'') 6),
             current_offset = current_offset st
                + int (length (zlib_compress env (tar_add env path ''.'') 6))\<rparr>)"
  using assms by (simp add: add_application_def Let_def)

lemma manager_add_application_result:
  assumes "path_exists env path"
  shows "manager_add_application env st key name path version dependencies =
     Inr \<lparr>index = dict_set (index st) key
               \<lparr>app_key = key, app_name = name, app_version = version,
                app_size = int (length (tar_add env path ''.'')),
                app_compressed_size = int (length (zlib_compress env (tar_add env path ''.'') 6)),
                app_offset = current_offset st,
                app_dependencies = (case dependencies of None \<Rightarrow> [] | Some ds \<Rightarrow> ds),
                app_files = map wf_rel_path (walk_files env path),
                app_checksum = sha256_hexdigest env (tar_add env path ''.'')\<rparr>,
             blob_data = bytesio_write (blob_data st) (zlib_compress env (tar_add env path ''.'') 6),
             current_offset = current_offset st
                + int (length (zlib_compress env (tar_add env path ''.'') 6))\<rparr>"
  using assms by (simp add: manager_add_application_def Let_def)

text \<open>
  What the adds do under a key of the index. \<open>add_binary\<close> returns \<open>False\<close> and leaves
  the whole builder state, index and payload buffer included, as it was (as \<open>add_user\<close>
  does in the data store). The two \<open>add_application\<close> have no such check: with a source
  path that exists they succeed, the entry of the key becomes the new metadata (its
  offset the write cursor) and the compressed bytes of the new archive are written to the
  payload buffer.
\<close>

theorem add_under_existing_key:
  "(dict_contains (index sb) key \<longrightarrow>
      add_binary env now sb key source_path provides version description env_vars dependencies
        architecture os_type = (False, sb))
   \<and> (dict_contains (index sa) k \<and> path_exists env path \<longrightarrow>
      fst (add_application env now sa k name path ver deps)
      \<and> map_option app_offset
            (dict_get (index (snd (add_application env now sa k name path ver
               deps))) k) = Some (current_offset sa)
      \<and> map_option app_checksum
            (dict_get (index (snd (add_application env now sa k name path ver
               deps))) k) = Some (sha256_hexdigest env (tar_add env path ''.''))
      \<and> blob_data (snd (add_application env now sa k name path ver deps))
          = bytesio_write (blob_data sa) (zlib_compress env (tar_add env path ''.'') 6))
   \<and> (dict_contains (index sm) k \<and> path_exists env path \<longrightarrow>
      (\<exists>sm'. manager_add_application env sm k name path ver deps = Inr sm'
         \<and> map_option app_offset (dict_get (index sm') k) = Some (current_offset sm)
         \<and> map_option app_checksum (dict_get (index sm') k)
             = Some (sha256_hexdigest env (tar_add env path ''.''))
         \<and> blob_data sm' = bytesio_write (blob_data sm) (zlib_compress env (tar_add env path ''.'') 6)))"
  by (simp add: add_binary_existing add_application_result manager_add_application_result
      dict_get_set_same)

theorem add_under_existing_key_witness:
  "dict_contains (index example_binaries) ''lib''
   \<and> dict_contains (index example_apps) ''web''
   \<and> dict_contains (index example_manager) ''web''
   \<and> path_exists example_env ''src/web2''
   \<and> add_binary example_env example_time example_binaries ''lib'' ''src/web2'' [] ''2.0'' []
        None None ''x86_64'' ''linux'' = (False, example_binaries)
   \<and> fst (add_application example_env example_time example_apps ''web'' ''Web'' ''src/web2''
             ''2.2.0'' None)
   \<and> blob_data (snd (add_application example_env example_time example_apps ''web'' ''Web''
                        ''src/web2'' ''2.2.0'' None))
       = bytesio_write (blob_data example_apps)
           (zlib_compress example_env (tar_add example_env ''src/web2'' ''.'') 6)
   \<and> (\<exists>sm'. manager_add_application example_env example_manager ''web'' ''Web'' ''src/web2''
                ''2.2.0'' None = Inr sm'
         \<and> map_option app_offset (dict_get (index sm') ''web'')
             = Some (current_offset example_manager)
         \<and> blob_data sm' = bytesio_write (blob_data example_manager)
             (zlib_compress example_env (tar_add example_env ''src/web2'' ''.'') 6))"
proof -
  have b: "dict_contains (index example_binaries) ''lib''"
    by (simp add: example_binaries_state dict_contains_def)
  have a: "dict_contains (index example_apps) ''web''"
    by (simp add: example_apps_state dict_contains_def)
  have m: "dict_contains (index example_manager) ''web''"
    by (simp add: example_manager_state dict_contains_def)
  have p: "path_exists example_env ''src/web2''"
    by (rule example_path_exists)
  from a b m p
    add_under_existing_key [where sb = example_binaries and key = "''lib''" and env = example_env
      and now = example_time and source_path = "''src/web2''" and provides = "[]"
      and version = "''2.0''" and description = "[]" and env_vars = None
      and dependencies = None and architecture = "''x86_64''" and os_type = "''linux''"
      and sa = example_apps and k = "''web''" and path = "''src/web2''" and name = "''Web''"
      and ver = "''2.2.0''" and deps = None and sm = example_manager]
  show ?thesis
    by blast
qed

text \<open>
  C3 against the code. Adding under a key that the index holds should fail and leave the
  index and the payload buffer unchanged, as \<open>add_binary\<close> does. \<open>add_application\<close> of
  \<^verbatim>\<open>app_blob_manager.py\<close> under the key \<open>web\<close>, which the index holds, succeeds instead:
  the entry of \<open>web\<close> is replaced (new version, size, offset 5 and checksum) and six
  bytes are appended to the five of the payload buffer, which are left without an entry.
\<close>

theorem add_application_overwrites:
  "dict_contains (index example_manager) ''web''
   \<and> getvalue (blob_data example_manager) = [0x78, 0x9C, 0x77, 0x65, 0x62]
   \<and> manager_add_application example_env example_manager ''web'' ''Web Server'' ''src/web2''
        ''2.2.0'' None
      = Inr \<lparr>index =
               [(''web'',
                 \<lparr>app_key = ''web'', app_name = ''Web Server'', app_version = ''2.2.0'',
                  app_size = 4, app_compressed_size = 6, app_offset = 5, app_dependencies = [],
                  app_files = [''run.sh''], app_checksum = ''77656232''\<rparr>)],
             blob_data = \<lparr>buf = [0x78, 0x9C, 0x77, 0x65, 0x62, 0x78, 0x9C, 0x77, 0x65, 0x62, 0x32],
                          pos = 11\<rparr>,
             current_offset = 11\<rparr>"
  by (simp add: example_manager_state manager_add_application_def example_env_def
      bytesio_write_def dict_contains_def dict_set_def getvalue_def Let_def)

section \<open>Offsets of consecutive entries\<close>

lemma chain_snoc:
  "chain start (es @ [(off, sz)]) cursor
     \<longleftrightarrow> (\<exists>mid. chain start es mid \<and> off = mid \<and> cursor = mid + sz)"
  by (induction es arbitrary: start) auto

lemma chain_contiguous:
  "chain start sl cursor \<Longrightarrow>
     (sl \<noteq> [] \<longrightarrow> fst (hd sl) = start)
     \<and> (\<forall>i. Suc i < length sl \<longrightarrow> fst (sl ! Suc i) = fst (sl ! i) + snd (sl ! i))
     \<and> cursor = start + sum_list (map snd sl)"
proof (induction sl arbitrary: start)
  case Nil
  then show ?case by simp
next
  case (Cons e es)
  obtain off sz where e: "e = (off, sz)"
    by (cases e)
  from Cons.prems have off: "off = start" and rest: "chain (start + sz) es cursor"
    by (simp_all add: e)
  note ih = Cons.IH [OF rest]
  have "fst ((e # es) ! Suc i) = fst ((e # es) ! i) + snd ((e # es) ! i)"
    if "Suc i < length (e # es)" for i
  proof (cases i)
    case 0
    with that ih off show ?thesis
      by (cases es) (auto simp: e)
  next
    case (Suc j)
    with that ih show ?thesis
      by simp
  qed
  with ih off show ?case
    by (simp add: e)
qed

lemma chain_0_contiguous: "chain 0 sl cursor \<Longrightarrow> contiguous sl cursor"
  using chain_contiguous [of 0 sl cursor] by (simp add: contiguous_def)

lemma slices_append:
  "slices f g \<lparr>index = idx @ [(k, m)], blob_data = b, current_offset = c\<rparr>
     = slices f g \<lparr>index = idx, blob_data = b', current_offset = c'\<rparr> @ [(f m, g m)]"
  by (simp add: slices_def)

lemma chain_add:
  assumes "chain 0 (slices f g st) (current_offset st)"
    and "\<not> dict_contains (index st) k"
    and "index st' = dict_set (index st) k m"
    and "f m = current_offset st"
    and "current_offset st' = current_offset st + g m"
  shows "chain 0 (slices f g st') (current_offset st')"
proof -
  have "slices f g st' = slices f g st @ [(f m, g m)]"
    using assms(2,3) by (simp add: slices_def dict_set_fresh)
  with assms(1,4,5) show ?thesis
    by (simp add: chain_snoc)
qed

lemma add_user_chain:
  assumes "chain 0 (slices usr_offset usr_compressed_size st) (current_offset st)"
    and "add_user env now st k p d q = (True, st')"
  shows "chain 0 (slices usr_offset usr_compressed_size st') (current_offset st')"
proof -
  from assms(2) have fresh: "\<not> dict_contains (index st) k" and ex: "path_exists env p"
    by (auto simp: add_user_def split: if_splits)
  from assms(2) have st': "st' = snd (add_user env now st k p d q)"
    by simp
  show ?thesis
    by (rule chain_add [OF assms(1) fresh], simp add: st' add_user_fresh [OF fresh ex])
      (simp_all add: st' add_user_fresh [OF fresh ex])
qed

lemma user_adds_chain:
  "user_adds env st rs = Some st' \<Longrightarrow>
   chain 0 (slices usr_offset usr_compressed_size st) (current_offset st) \<Longrightarrow>
   chain 0 (slices usr_offset usr_compressed_size st') (current_offset st')"
proof (induction rs arbitrary: st)
  case Nil
  then show ?case by simp
next
  case (Cons r rs)
  obtain k now p d q where r: "r = (k, now, p, d, q)"
    by (cases r)
  from Cons.prems(1) obtain st1 where
    one: "add_user env now st k p d q = (True, st1)" and more: "user_adds env st1 rs = Some st'"
    by (auto simp: r split: prod.splits bool.splits)
  from add_user_chain [OF Cons.prems(2) one] more show ?case
    by (rule Cons.IH [rotated])
qed

lemma add_binary_chain:
  assumes "chain 0 (slices bin_offset bin_compressed_size st) (current_offset st)"
    and "add_binary env now st k p pr v d ev ds a os = (True, st')"
  shows "chain 0 (slices bin_offset bin_compressed_size st') (current_offset st')"
proof -
  from assms(2) have fresh: "\<not> dict_contains (index st) k" and ex: "path_exists env p"
    by (auto simp: add_binary_def split: if_splits)
  from assms(2) have st': "st' = snd (add_binary env now st k p pr v d ev ds a os)"
    by simp
  show ?thesis
    by (rule chain_add [OF assms(1) fresh], simp add: st' add_binary_def fresh ex Let_def)
      (simp_all add: st' add_binary_def fresh ex Let_def)
qed

lemma binary_adds_chain:
  "binary_adds env st rs = Some st' \<Longrightarrow>
   chain 0 (slices bin_offset bin_compressed_size st) (current_offset st) \<Longrightarrow>
   chain 0 (slices bin_offset bin_compressed_size st') (current_offset st')"
proof (induction rs arbitrary: st)
  case Nil
  then show ?case by simp
next
  case (Cons r rs)
  obtain k q where r: "r = (k, q)"
    by (cases r)
  from Cons.prems(1) obtain st1 where
    one: "add_binary env (rq_now q) st k (rq_source_path q) (rq_provides q) (rq_version q)
             (rq_description q) (rq_env_vars q) (rq_dependencies q) (rq_architecture q)
             (rq_os_type q) = (True, st1)"
    and more: "binary_adds env st1 rs = Some st'"
    by (auto simp: r split: prod.splits bool.splits)
  from add_binary_chain [OF Cons.prems(2) one] more show ?case
    by (rule Cons.IH [rotated])
qed

lemma dict_keys_set: "set (dict_keys (dict_set d k v)) = insert k (set (dict_keys d))"
  using AList.dom_update [of k v d] by (simp add: dict_keys_def dict_set_def)

lemma manager_adds_chain:
  "manager_adds env st rs = Some st' \<Longrightarrow>
   distinct (map fst rs) \<Longrightarrow> set (dict_keys (index st)) \<inter> set (map fst rs) = {} \<Longrightarrow>
   chain 0 (slices app_offset app_compressed_size st) (current_offset st) \<Longrightarrow>
   chain 0 (slices app_offset app_compressed_size st') (current_offset st')"
proof (induction rs arbitrary: st)
  case Nil
  then show ?case by simp
next
  case (Cons r rs)
  obtain k name p v ds where r: "r = (k, name, p, v, ds)"
    by (cases r)
  from Cons.prems(1) obtain st1 where
    one: "manager_add_application env st k name p v ds = Inr st1"
    and more: "manager_adds env st1 rs = Some st'"
    by (auto simp: r split: sum.splits)
  from one have ex: "path_exists env p"
    by (auto simp: manager_add_application_def split: if_splits)
  from Cons.prems(3) have fresh: "\<not> dict_contains (index st) k"
    by (simp add: r dict_contains_keys)
  from one have st1: "Inr st1 = manager_add_application env st k name p v ds"
    by simp
  note st1 = st1 [unfolded manager_add_application_result [OF ex] sum.inject]
  have c1: "chain 0 (slices app_offset app_compressed_size st1) (current_offset st1)"
    by (rule chain_add [OF Cons.prems(4) fresh], simp add: st1) (simp_all add: st1)
  have "set (dict_keys (index st1)) = insert k (set (dict_keys (index st)))"
    by (simp add: st1 dict_keys_set)
  with Cons.prems(2,3) have k1: "set (dict_keys (index st1)) \<inter> set (map fst rs) = {}"
    by (auto simp: r)
  from Cons.prems(2) have "distinct (map fst rs)"
    by simp
  from Cons.IH [OF more this k1 c1] show ?case .
qed

lemma app_adds_chain:
  "app_adds env st rs = Some st' \<Longrightarrow>
   distinct (map fst rs) \<Longrightarrow> set (dict_keys (index st)) \<inter> set (map fst rs) = {} \<Longrightarrow>
   chain 0 (slices app_offset app_compressed_size st) (current_offset st) \<Longrightarrow>
   chain 0 (slices app_offset app_compressed_size st') (current_offset st')"
proof (induction rs arbitrary: st)
  case Nil
  then show ?case by simp
next
  case (Cons r rs)
  obtain k now name p v ds where r: "r = (k, now, name, p, v, ds)"
    by (cases r)
  from Cons.prems(1) obtain st1 where
    one: "add_application env now st k name p v ds = (True, st1)"
    and more: "app_adds env st1 rs = Some st'"
    by (auto simp: r split: prod.splits bool.splits)
  from one have ex: "path_exists env p"
    by (auto simp: add_application_def split: if_splits)
  from Cons.prems(3) have fresh: "\<not> dict_contains (index st) k"
    by (simp add: r dict_contains_keys)
  from one have st1: "st1 = snd (add_application env now st k name p v ds)"
    by simp
  note st1 = st1 [unfolded add_application_result [OF ex] snd_conv]
  have c1: "chain 0 (slices app_offset app_compressed_size st1) (current_offset st1)"
    by (rule chain_add [OF Cons.prems(4) fresh], simp add: st1) (simp_all add: st1)
  have "set (dict_keys (index st1)) = insert k (set (dict_keys (index st)))"
    by (simp add: st1 dict_keys_set)
  with Cons.prems(2,3) have k1: "set (dict_keys (index st1)) \<inter> set (map fst rs) = {}"
    by (auto simp: r)
  from Cons.prems(2) have "distinct (map fst rs)"
    by simp
  from Cons.IH [OF more this k1 c1] show ?case .
qed

lemma new_builder_chain: "chain 0 (slices f g new_builder) (current_offset new_builder)"
  by (simp add: new_builder_def slices_def)

text \<open>
  Where the invariant holds. For every sequence of successful adds on a new builder of
  the binary catalog or of the data store, and for every sequence of successful adds
  under pairwise distinct keys on a new builder of either application catalog, the
  slices recorded in the index lie end to end in the order of the writes: the first
  offset is 0, each next offset is the previous offset plus the previous compressed size,
  and the write cursor is the sum of the recorded compressed sizes.
\<close>

theorem adds_contiguous:
  "(user_adds env new_builder us = Some su \<longrightarrow>
      contiguous (slices usr_offset usr_compressed_size su) (current_offset su))
   \<and> (binary_adds env new_builder bs = Some sb \<longrightarrow>
      contiguous (slices bin_offset bin_compressed_size sb) (current_offset sb))
   \<and> (distinct (map fst ms) \<and> manager_adds env new_builder ms = Some sm \<longrightarrow>
      contiguous (slices app_offset app_compressed_size sm) (current_offset sm))
   \<and> (distinct (map fst aps) \<and> app_adds env new_builder aps = Some sa \<longrightarrow>
      contiguous (slices app_offset app_compressed_size sa) (current_offset sa))"
proof (intro conjI impI)
  assume "user_adds env new_builder us = Some su"
  from user_adds_chain [OF this new_builder_chain]
  show "contiguous (slices usr_offset usr_compressed_size su) (current_offset su)"
    by (rule chain_0_contiguous)
next
  assume "binary_adds env new_builder bs = Some sb"
  from binary_adds_chain [OF this new_builder_chain]
  show "contiguous (slices bin_offset bin_compressed_size sb) (current_offset sb)"
    by (rule chain_0_contiguous)
next
  assume a: "distinct (map fst ms) \<and> manager_adds env new_builder ms = Some sm"
  have "set (dict_keys (index (new_builder :: AppMetadata builder))) \<inter> set (map fst ms) = {}"
    by (simp add: new_builder_def dict_keys_def)
  from manager_adds_chain [OF conjunct2 [OF a] conjunct1 [OF a] this new_builder_chain]
  show "contiguous (slices app_offset app_compressed_size sm) (current_offset sm)"
    by (rule chain_0_contiguous)
next
  assume a: "distinct (map fst aps) \<and> app_adds env new_builder aps = Some sa"
  have "set (dict_keys (index (new_builder :: AppMetadataB builder))) \<inter> set (map fst aps) = {}"
    by (simp add: new_builder_def dict_keys_def)
  from app_adds_chain [OF conjunct2 [OF a] conjunct1 [OF a] this new_builder_chain]
  show "contiguous (slices app_offset app_compressed_size sa) (current_offset sa)"
    by (rule chain_0_contiguous)
qed

theorem adds_contiguous_witness:
  "user_adds example_env new_builder
      [(''alice'', (example_time, example_time), ''src/web'', [], None),
       (''bob'', (example_time, example_time), ''src/lib'', [], Some 100)] = Some example_users
   \<and> binary_adds example_env new_builder [(''lib'', example_request)] = Some example_binaries
   \<and> distinct (map fst [(''web'', ''Web Server'', ''src/web'', ''2.1.0'', None :: string list option)])
   \<and> manager_adds example_env new_builder [(''web'', ''Web Server'', ''src/web'', ''2.1.0'', None)]
       = Some example_manager
   \<and> distinct (map fst [(''web'', example_time, ''Web Server'', ''src/web'', ''2.1.0'',
                          None :: string list option)])
   \<and> app_adds example_env new_builder
        [(''web'', example_time, ''Web Server'', ''src/web'', ''2.1.0'', None)] = Some example_apps
   \<and> contiguous (slices usr_offset usr_compressed_size example_users)
        (current_offset example_users)
   \<and> contiguous (slices bin_offset bin_compressed_size example_binaries)
        (current_offset example_binaries)
   \<and> contiguous (slices app_offset app_compressed_size example_manager)
        (current_offset example_manager)
   \<and> contiguous (slices app_offset app_compressed_size example_apps)
        (current_offset example_apps)"
proof -
  have u: "user_adds example_env new_builder
      [(''alice'', (example_time, example_time), ''src/web'', [], None),
       (''bob'', (example_time, example_time), ''src/lib'', [], Some 100)] = Some example_users"
    by (simp add: example_users_def add_user_def example_env_def dict_contains_def dict_set_def
        new_builder_def Let_def)
  have b: "binary_adds example_env new_builder [(''lib'', example_request)] = Some example_binaries"
    by (simp add: example_binaries_def example_request_def add_binary_def example_env_def
        dict_contains_def new_builder_def Let_def)
  have m: "distinct (map fst [(''web'', ''Web Server'', ''src/web'', ''2.1.0'', None :: string list option)])
      \<and> manager_adds example_env new_builder [(''web'', ''Web Server'', ''src/web'', ''2.1.0'', None)]
           = Some example_manager"
    by (simp add: example_manager_def manager_add_application_def example_env_def Let_def)
  have a: "distinct (map fst [(''web'', example_time, ''Web Server'', ''src/web'', ''2.1.0'',
                                None :: string list option)])
      \<and> app_adds example_env new_builder
           [(''web'', example_time, ''Web Server'', ''src/web'', ''2.1.0'', None)] = Some example_apps"
    by (simp add: example_apps_def add_application_def example_env_def Let_def)
  from u b m a
    adds_contiguous [of example_env _ example_users _ example_binaries _ example_manager _
      example_apps]
  show ?thesis
    by blast
qed

text \<open>
  C8 against the code. In \<^verbatim>\<open>app_blob_manager.py\<close> an add under a key of the index
  succeeds, so two adds under the key \<open>web\<close> on a new builder are a sequence of
  successful adds; after them the only recorded slice has offset 5, not 0, and
  compressed size 6, while the write cursor is 11.
\<close>

theorem adds_same_key_offsets:
  "map_option (\<lambda>st. (slices app_offset app_compressed_size st, current_offset st))
     (manager_adds example_env new_builder
        [(''web'', ''Web Server'', ''src/web'', ''2.1.0'', None),
         (''web'', ''Web Server'', ''src/web2'', ''2.2.0'', None)])
     = Some ([(5, 6)], 11)"
  by (simp add: manager_add_application_def example_env_def new_builder_def dict_set_def
      slices_def Let_def)

section \<open>Dependency resolution\<close>

lemma resolve_loop_total:
  "resolve_loop idx deps_of resolved warnings to_process
     = Some (resolve_total idx deps_of resolved warnings to_process)"
proof (induction idx deps_of resolved warnings to_process rule: resolve_total.induct)
  case (1 idx deps_of resolved warnings)
  show ?case
    by (subst resolve_loop.simps) simp
next
  case (2 idx deps_of resolved warnings key rest)
  show ?case
    by (subst resolve_loop.simps) (use 2 in \<open>simp split: option.splits\<close>)
qed

lemma resolve_total_distinct:
  "distinct resolved \<Longrightarrow> distinct (fst (resolve_total idx deps_of resolved warnings to_process))"
  by (induction idx deps_of resolved warnings to_process rule: resolve_total.induct)
    (auto split: option.splits)

lemma resolve_total_keeps:
  "set resolved \<subseteq> set (fst (resolve_total idx deps_of resolved warnings to_process))"
  by (induction idx deps_of resolved warnings to_process rule: resolve_total.induct)
    (auto split: option.splits)

lemma resolve_total_requested:
  "k \<in> set to_process \<Longrightarrow> dict_contains idx k \<Longrightarrow>
     k \<in> set (fst (resolve_total idx deps_of resolved warnings to_process))"
proof (induction idx deps_of resolved warnings to_process rule: resolve_total.induct)
  case (1 idx deps_of resolved warnings)
  then show ?case by simp
next
  case (2 idx deps_of resolved warnings key rest)
  show ?case
  proof (cases "k = key")
    case True
    with "2.prems" obtain m where m: "dict_get idx key = Some m"
      by (auto simp: dict_contains_iff)
    show ?thesis
    proof (cases "key \<in> set resolved")
      case True
      with resolve_total_keeps [of resolved idx deps_of warnings rest] \<open>k = key\<close> show ?thesis
        by auto
    next
      case False
      with m \<open>k = key\<close>
        resolve_total_keeps [of "List.insert key resolved" idx deps_of warnings
          "rest @ filter (\<lambda>dep. dep \<notin> set (List.insert key resolved)) (deps_of m)"]
      show ?thesis
        by auto
    qed
  next
    case False
    with "2.prems" have "k \<in> set rest"
      by simp
    with "2.IH" "2.prems"(2) show ?thesis
      by (auto split: option.splits)
  qed
qed

lemma resolve_total_sound:
  "set (fst (resolve_total idx deps_of resolved warnings to_process))
     \<subseteq> set resolved \<union> (dep_edges idx deps_of)\<^sup>* `` {k \<in> set to_process. dict_contains idx k}"
proof (induction idx deps_of resolved warnings to_process rule: resolve_total.induct)
  case (1 idx deps_of resolved warnings)
  then show ?case by simp
next
  case (2 idx deps_of resolved warnings key rest)
  let ?E = "dep_edges idx deps_of"
  show ?case
  proof (cases "key \<in> set resolved")
    case True
    with "2.IH"(1) show ?thesis
      by auto
  next
    case False
    show ?thesis
    proof (cases "dict_get idx key")
      case None
      with False "2.IH"(2) show ?thesis
        by auto
    next
      case (Some m)
      let ?new = "filter (\<lambda>dep. dep \<notin> set (List.insert key resolved)) (deps_of m)"
      have key: "dict_contains idx key"
        using Some by (simp add: dict_contains_iff)
      define A where "A = ?E\<^sup>* `` {k \<in> set (rest @ ?new). dict_contains idx k}"
      define B where "B = ?E\<^sup>* `` {k \<in> set (key # rest). dict_contains idx k}"
      have sub: "A \<subseteq> B"
      proof
        fix x
        assume "x \<in> A"
        then obtain k where k: "k \<in> set (rest @ ?new)" "dict_contains idx k" "(k, x) \<in> ?E\<^sup>*"
          by (auto simp: A_def)
        show "x \<in> B"
        proof (cases "k \<in> set rest")
          case True
          with k show ?thesis
            by (auto simp: B_def)
        next
          case False
          with k(1) have "k \<in> set (deps_of m)"
            by auto
          with Some k(2) have "(key, k) \<in> ?E"
            by (auto simp: dep_edges_def)
          from this k(3) have "(key, x) \<in> ?E\<^sup>*"
            by (rule converse_rtrancl_into_rtrancl)
          with key show ?thesis
            by (auto simp: B_def)
        qed
      qed
      have keyin: "key \<in> B"
        using key by (auto simp: B_def)
      define R' where "R' = set (fst (resolve_total idx deps_of (List.insert key resolved) warnings
                                       (rest @ ?new)))"
      have ih: "R' \<subseteq> set (List.insert key resolved) \<union> A"
        unfolding R'_def A_def by (rule "2.IH"(3) [OF False Some])
      then have "R' \<subseteq> insert key (set resolved) \<union> A"
        by simp
      with sub keyin have "R' \<subseteq> set resolved \<union> B"
        by auto
      moreover have "set (fst (resolve_total idx deps_of resolved warnings (key # rest))) = R'"
        using False Some by (simp add: R'_def)
      ultimately have "set (fst (resolve_total idx deps_of resolved warnings (key # rest)))
              \<subseteq> set resolved \<union> B"
        by simp
      then show ?thesis
        unfolding B_def .
    qed
  qed
qed

lemma resolve_total_closed:
  assumes "\<forall>k \<in> set resolved. \<forall>d. (k, d) \<in> dep_edges idx deps_of
             \<longrightarrow> d \<in> set resolved \<union> set to_process"
    and "k \<in> set (fst (resolve_total idx deps_of resolved warnings to_process))"
    and "(k, d) \<in> dep_edges idx deps_of"
  shows "d \<in> set (fst (resolve_total idx deps_of resolved warnings to_process))"
  using assms
proof (induction idx deps_of resolved warnings to_process rule: resolve_total.induct)
  case (1 idx deps_of resolved warnings)
  then show ?case by auto
next
  case (2 idx deps_of resolved warnings key rest)
  show ?case
  proof (cases "key \<in> set resolved")
    case True
    have "\<forall>k \<in> set resolved. \<forall>d. (k, d) \<in> dep_edges idx deps_of
             \<longrightarrow> d \<in> set resolved \<union> set rest"
      using "2.prems"(1) True by auto
    from "2.IH"(1) [OF True this] "2.prems"(2,3) True show ?thesis
      by simp
  next
    case False
    show ?thesis
    proof (cases "dict_get idx key")
      case None
      then have "\<not> dict_contains idx key"
        by (simp add: dict_contains_iff)
      then have "\<forall>k \<in> set resolved. \<forall>d. (k, d) \<in> dep_edges idx deps_of
             \<longrightarrow> d \<in> set resolved \<union> set rest"
        using "2.prems"(1) by (fastforce simp: dep_edges_def)
      from "2.IH"(2) [OF False None this] "2.prems"(2,3) False None show ?thesis
        by simp
    next
      case (Some m)
      let ?res = "List.insert key resolved"
      let ?tp = "rest @ filter (\<lambda>dep. dep \<notin> set ?res) (deps_of m)"
      have "\<forall>k \<in> set ?res. \<forall>d. (k, d) \<in> dep_edges idx deps_of \<longrightarrow> d \<in> set ?res \<union> set ?tp"
      proof (intro ballI allI impI)
        fix k' d'
        assume k': "k' \<in> set ?res" and e: "(k', d') \<in> dep_edges idx deps_of"
        show "d' \<in> set ?res \<union> set ?tp"
        proof (cases "k' = key")
          case True
          with e Some have "d' \<in> set (deps_of m)"
            by (auto simp: dep_edges_def)
          then show ?thesis
            by auto
        next
          case False
          with k' have "k' \<in> set resolved"
            by simp
          with "2.prems"(1) e have "d' \<in> set resolved \<union> set (key # rest)"
            by blast
          then show ?thesis
            by auto
        qed
      qed
      from "2.IH"(3) [OF False Some this] "2.prems"(2,3) False Some show ?thesis
        by simp
    qed
  qed
qed

lemma resolve_total_closure:
  "set (fst (resolve_total idx deps_of [] warnings ks)) = closure idx deps_of (set ks)"
proof
  show "set (fst (resolve_total idx deps_of [] warnings ks)) \<subseteq> closure idx deps_of (set ks)"
    using resolve_total_sound [of idx deps_of "[]" warnings ks]
    by (simp add: closure_def)
next
  let ?R = "set (fst (resolve_total idx deps_of [] warnings ks))"
  have step: "d \<in> ?R" if "k \<in> ?R" "(k, d) \<in> dep_edges idx deps_of" for k d
    using resolve_total_closed [of "[]" idx deps_of ks k warnings d] that by simp
  have "x \<in> ?R" if "(k, x) \<in> (dep_edges idx deps_of)\<^sup>*" "k \<in> ?R" for k x
    using that by (induction rule: rtrancl_induct) (auto intro: step)
  then show "closure idx deps_of (set ks) \<subseteq> ?R"
    using resolve_total_requested [of _ ks idx deps_of "[]" warnings]
    by (auto simp: closure_def)
qed

lemma closure_in_index: "x \<in> closure idx deps_of S \<Longrightarrow> dict_contains idx x"
proof -
  assume "x \<in> closure idx deps_of S"
  then obtain k where k: "dict_contains idx k" "(k, x) \<in> (dep_edges idx deps_of)\<^sup>*"
    by (auto simp: closure_def)
  from k(2) k(1) show ?thesis
    by (induction rule: rtrancl_induct) (auto simp: dep_edges_def)
qed

lemma closure_idem: "closure idx deps_of (closure idx deps_of S) = closure idx deps_of S"
proof
  show "closure idx deps_of (closure idx deps_of S) \<subseteq> closure idx deps_of S"
    by (auto simp: closure_def intro: rtrancl_trans)
  show "closure idx deps_of S \<subseteq> closure idx deps_of (closure idx deps_of S)"
  proof
    fix x
    assume x: "x \<in> closure idx deps_of S"
    then have "dict_contains idx x"
      by (rule closure_in_index)
    with x show "x \<in> closure idx deps_of (closure idx deps_of S)"
      unfolding closure_def [of idx deps_of "closure idx deps_of S"] by auto
  qed
qed

lemma resolve_total_warnings_keep:
  "set warnings \<subseteq> set (snd (resolve_total idx deps_of resolved warnings to_process))"
  by (induction idx deps_of resolved warnings to_process rule: resolve_total.induct)
    (auto split: option.splits)

lemma resolve_total_warns:
  "k \<in> set to_process \<Longrightarrow> \<not> dict_contains idx k \<Longrightarrow> k \<notin> set resolved \<Longrightarrow>
     k \<in> set (snd (resolve_total idx deps_of resolved warnings to_process))"
proof (induction idx deps_of resolved warnings to_process rule: resolve_total.induct)
  case (1 idx deps_of resolved warnings)
  then show ?case by simp
next
  case (2 idx deps_of resolved warnings key rest)
  show ?case
  proof (cases "k = key")
    case True
    with "2.prems" have "dict_get idx key = None"
      by (simp add: dict_contains_iff)
    with True "2.prems"(3) resolve_total_warnings_keep [of "warnings @ [key]" idx deps_of resolved rest]
    show ?thesis
      by auto
  next
    case False
    with "2.prems"(1) have "k \<in> set rest"
      by simp
    with "2.IH" "2.prems"(2,3) False show ?thesis
      by (auto split: option.splits)
  qed
qed

lemma resolve_generic:
  "\<exists>r w. resolve_loop idx deps_of [] [] ks = Some (r, w)
     \<and> distinct r
     \<and> set r = closure idx deps_of (set ks)
     \<and> (\<forall>k \<in> set r. dict_contains idx k)
     \<and> (\<forall>k \<in> set ks. \<not> dict_contains idx k \<longrightarrow> k \<in> set w)"
proof -
  obtain r w where rw: "resolve_total idx deps_of [] [] ks = (r, w)"
    by (cases "resolve_total idx deps_of [] [] ks")
  have "resolve_loop idx deps_of [] [] ks = Some (r, w)"
    by (simp add: resolve_loop_total rw)
  moreover have "distinct r"
    using resolve_total_distinct [of "[]" idx deps_of "[]" ks] by (simp add: rw)
  moreover have c: "set r = closure idx deps_of (set ks)"
    using resolve_total_closure [of idx deps_of "[]" ks] by (simp add: rw)
  moreover have "\<forall>k \<in> set r. dict_contains idx k"
    unfolding c by (auto dest: closure_in_index)
  moreover have "\<forall>k \<in> set ks. \<not> dict_contains idx k \<longrightarrow> k \<in> set w"
    using resolve_total_warns [of _ ks idx "[]" deps_of "[]"] by (simp add: rw)
  ultimately show ?thesis
    by blast
qed

lemma resolve_again_generic:
  assumes "resolve_loop idx deps_of [] [] ks = Some (r, w)" and "set ks' = set r"
  shows "\<exists>r' w'. resolve_loop idx deps_of [] [] ks' = Some (r', w') \<and> set r' = set r"
proof -
  from resolve_generic [of idx deps_of ks] assms(1)
  have r: "set r = closure idx deps_of (set ks)"
    by auto
  from resolve_generic [of idx deps_of ks'] obtain r' w' where
    r': "resolve_loop idx deps_of [] [] ks' = Some (r', w')" "set r' = closure idx deps_of (set ks')"
    by blast
  have "set r' = set r"
    by (simp add: r' assms(2)) (simp add: r closure_idem)
  with r'(1) show ?thesis
    by blast
qed

lemma closure_chain:
  assumes "chain_index idx deps_of A B C"
  shows "closure idx deps_of {A} = {A, B, C}"
proof -
  let ?E = "dep_edges idx deps_of"
  from assms obtain a b c where
    a: "dict_get idx A = Some a" "deps_of a = [B]" and
    b: "dict_get idx B = Some b" "deps_of b = [C]" and
    c: "dict_get idx C = Some c"
       "\<forall>d \<in> set (deps_of c). d \<in> {A, B, C} \<or> \<not> dict_contains idx d"
    by (auto simp: chain_index_def list_all_iff split: option.splits)
  have pa: "dict_contains idx A" and pb: "dict_contains idx B" and pc: "dict_contains idx C"
    using a b c by (simp_all add: dict_contains_iff)
  have ab: "(A, B) \<in> ?E" and bc: "(B, C) \<in> ?E"
    using a b pb pc by (auto simp: dep_edges_def)
  have step: "y \<in> {A, B, C}" if "x \<in> {A, B, C}" "(x, y) \<in> ?E" for x y
    using that a b c by (auto simp: dep_edges_def)
  have "y \<in> {A, B, C}" if "(A, y) \<in> ?E\<^sup>*" for y
    using that by (induction rule: rtrancl_induct) (use step in blast)+
  moreover have "(A, A) \<in> ?E\<^sup>*" "(A, B) \<in> ?E\<^sup>*" "(A, C) \<in> ?E\<^sup>*"
    using ab bc by (auto intro: rtrancl_trans)
  ultimately show ?thesis
    using pa by (auto simp: closure_def)
qed

lemma resolve_chain_generic:
  assumes "chain_index idx deps_of A B C"
  shows "\<exists>r w. resolve_loop idx deps_of [] [] [A] = Some (r, w) \<and> set r = {A, B, C}"
  using resolve_generic [of idx deps_of "[A]"] closure_chain [OF assms] by auto

lemma resolve_missing_generic:
  assumes "missing_dep_index idx deps_of A Z"
  shows "resolve_loop idx deps_of [] [] [A] = Some ([A], [Z])"
proof -
  from assms obtain a where a: "dict_get idx A = Some a" "deps_of a = [Z]"
    and z: "dict_get idx Z = None"
    by (auto simp: missing_dep_index_def dict_contains_iff)
  from a z have "Z \<noteq> A"
    by auto
  with a z show ?thesis
    by (simp add: resolve_loop_total)
qed

lemma absent_deps_union:
  "absent_deps idx deps_of (S \<union> T) = absent_deps idx deps_of S \<union> absent_deps idx deps_of T"
  by (auto simp: absent_deps_def)

lemma absent_deps_single:
  "dict_get idx key = Some m \<Longrightarrow>
     absent_deps idx deps_of {key} = {d \<in> set (deps_of m). \<not> dict_contains idx d}"
  by (auto simp: absent_deps_def)

lemma resolve_total_warnings:
  assumes "\<forall>k \<in> set resolved. dict_contains idx k"
  shows "set (snd (resolve_total idx deps_of resolved warnings to_process))
     = set warnings \<union> {k \<in> set to_process. \<not> dict_contains idx k}
       \<union> absent_deps idx deps_of
           (set (fst (resolve_total idx deps_of resolved warnings to_process)) - set resolved)"
  using assms
proof (induction idx deps_of resolved warnings to_process rule: resolve_total.induct)
  case (1 idx deps_of resolved warnings)
  then show ?case
    by (simp add: absent_deps_def)
next
  case (2 idx deps_of resolved warnings key rest)
  show ?case
  proof (cases "key \<in> set resolved")
    case True
    with "2.prems" have "dict_contains idx key"
      by simp
    then have "{k \<in> set (key # rest). \<not> dict_contains idx k}
                 = {k \<in> set rest. \<not> dict_contains idx k}"
      by auto
    with "2.IH"(1) [OF True "2.prems"] True show ?thesis
      by simp
  next
    case False
    show ?thesis
    proof (cases "dict_get idx key")
      case None
      then have "\<not> dict_contains idx key"
        by (simp add: dict_contains_iff)
      then have "{k \<in> set (key # rest). \<not> dict_contains idx k}
                   = insert key {k \<in> set rest. \<not> dict_contains idx k}"
        by auto
      with "2.IH"(2) [OF False None "2.prems"] False None show ?thesis
        by simp
    next
      case (Some m)
      let ?res = "List.insert key resolved"
      let ?new = "filter (\<lambda>dep. dep \<notin> set ?res) (deps_of m)"
      define R' where "R' = set (fst (resolve_total idx deps_of ?res warnings (rest @ ?new)))"
      define W' where "W' = set (snd (resolve_total idx deps_of ?res warnings (rest @ ?new)))"
      have key: "dict_contains idx key"
        using Some by (simp add: dict_contains_iff)
      with "2.prems" have inv: "\<forall>k \<in> set ?res. dict_contains idx k"
        by simp
      have ih: "W' = set warnings \<union> {k \<in> set (rest @ ?new). \<not> dict_contains idx k}
                  \<union> absent_deps idx deps_of (R' - set ?res)"
        unfolding W'_def R'_def by (rule "2.IH"(3) [OF False Some inv])
      have new: "{k \<in> set (rest @ ?new). \<not> dict_contains idx k}
                   = {k \<in> set rest. \<not> dict_contains idx k}
                     \<union> {d \<in> set (deps_of m). \<not> dict_contains idx d}"
        using inv by auto
      have old: "{k \<in> set (key # rest). \<not> dict_contains idx k}
                   = {k \<in> set rest. \<not> dict_contains idx k}"
        using key by auto
      have "key \<in> R'"
        using resolve_total_keeps [of ?res idx deps_of warnings "rest @ ?new"]
        by (auto simp: R'_def)
      with False have "R' - set resolved = (R' - set ?res) \<union> {key}"
        by auto
      then have ad: "absent_deps idx deps_of (R' - set resolved)
              = absent_deps idx deps_of (R' - set ?res)
                \<union> {d \<in> set (deps_of m). \<not> dict_contains idx d}"
        by (simp only: absent_deps_union absent_deps_single [OF Some])
      have "W' = set warnings \<union> {k \<in> set (key # rest). \<not> dict_contains idx k}
                  \<union> absent_deps idx deps_of (R' - set resolved)"
        unfolding ih new old ad by auto
      moreover have "set (snd (resolve_total idx deps_of resolved warnings (key # rest))) = W'"
        "set (fst (resolve_total idx deps_of resolved warnings (key # rest))) = R'"
        using False Some by (simp_all add: W'_def R'_def)
      ultimately show ?thesis
        by simp
    qed
  qed
qed

lemma resolve_warnings_generic:
  assumes "resolve_loop idx deps_of [] [] ks = Some (r, w)"
  shows "set w = {k \<in> set ks. \<not> dict_contains idx k} \<union> absent_deps idx deps_of (set r)"
proof -
  from assms have rw: "resolve_total idx deps_of [] [] ks = (r, w)"
    by (simp add: resolve_loop_total)
  from resolve_total_warnings [of "[]" idx deps_of "[]" ks] show ?thesis
    by (simp add: rw)
qed

text \<open>
  C5, as the code has it. Resolution always returns, for \<open>AppBlobExtractor\<close> and for
  \<open>BinaryBlobBuilder\<close>: the keys it returns are exactly the keys of the index that can be
  reached from a requested key of the index along dependencies that are in the index;
  the keys it warns about are exactly the requested keys that are not in the index and
  the keys not in the index that a returned entry depends on; and resolving any
  enumeration of a result again gives the same set of keys. So, in an index in which \<open>A\<close>
  depends on \<open>[B]\<close>, \<open>B\<close> depends on \<open>[C]\<close> and \<open>C\<close> is an entry whose own dependencies lead
  nowhere else, resolving \<open>[A]\<close> returns exactly the keys \<open>A\<close>, \<open>B\<close>, \<open>C\<close>; and when \<open>A\<close>
  depends on \<open>[Z]\<close> and \<open>Z\<close> is not in the index, resolving \<open>[A]\<close> returns \<open>A\<close> alone and
  warns about \<open>Z\<close>.
\<close>

theorem resolve_dependencies_closure:
  "(chain_index (ex_index ex) app_dependencies A B C \<longrightarrow>
      (\<exists>r w. resolve_dependencies ex [A] = Some (r, w) \<and> set r = {A, B, C}))
   \<and> (chain_index (index sb) get_dependencies A B C \<longrightarrow>
      (\<exists>r w. binary_resolve_dependencies sb [A] = Some (r, w) \<and> set r = {A, B, C}))
   \<and> (\<exists>r w. resolve_dependencies ex ks = Some (r, w)
         \<and> set r = closure (ex_index ex) app_dependencies (set ks)
         \<and> (\<forall>k \<in> set r. dict_contains (ex_index ex) k)
         \<and> set w = {k \<in> set ks. \<not> dict_contains (ex_index ex) k}
                    \<union> absent_deps (ex_index ex) app_dependencies (set r)
         \<and> (\<forall>ks'. set ks' = set r \<longrightarrow>
               (\<exists>r' w'. resolve_dependencies ex ks' = Some (r', w') \<and> set r' = set r)))
   \<and> (\<exists>r w. binary_resolve_dependencies sb ks = Some (r, w)
         \<and> set r = closure (index sb) get_dependencies (set ks)
         \<and> (\<forall>k \<in> set r. dict_contains (index sb) k)
         \<and> set w = {k \<in> set ks. \<not> dict_contains (index sb) k}
                    \<union> absent_deps (index sb) get_dependencies (set r)
         \<and> (\<forall>ks'. set ks' = set r \<longrightarrow>
               (\<exists>r' w'. binary_resolve_dependencies sb ks' = Some (r', w') \<and> set r' = set r)))
   \<and> (missing_dep_index (ex_index ex) app_dependencies A Z \<longrightarrow>
        resolve_dependencies ex [A] = Some ([A], [Z]))
   \<and> (missing_dep_index (index sb) get_dependencies A Z \<longrightarrow>
        binary_resolve_dependencies sb [A] = Some ([A], [Z]))"
proof -
  have always: "\<exists>r w. resolve_loop idx deps_of [] [] ks = Some (r, w)
         \<and> set r = closure idx deps_of (set ks)
         \<and> (\<forall>k \<in> set r. dict_contains idx k)
         \<and> set w = {k \<in> set ks. \<not> dict_contains idx k} \<union> absent_deps idx deps_of (set r)
         \<and> (\<forall>ks'. set ks' = set r \<longrightarrow>
               (\<exists>r' w'. resolve_loop idx deps_of [] [] ks' = Some (r', w') \<and> set r' = set r))"
    for idx :: "(string \<times> 'x) list" and deps_of
  proof -
    from resolve_generic [of idx deps_of ks] obtain r w where
      rw: "resolve_loop idx deps_of [] [] ks = Some (r, w)"
        and c: "set r = closure idx deps_of (set ks)"
        and i: "\<forall>k \<in> set r. dict_contains idx k"
      by blast
    have w: "set w = {k \<in> set ks. \<not> dict_contains idx k} \<union> absent_deps idx deps_of (set r)"
      by (rule resolve_warnings_generic [OF rw])
    have again: "\<forall>ks'. set ks' = set r \<longrightarrow>
               (\<exists>r' w'. resolve_loop idx deps_of [] [] ks' = Some (r', w') \<and> set r' = set r)"
      using resolve_again_generic [OF rw] by blast
    show ?thesis
      by (intro exI [of _ r] exI [of _ w] conjI rw c i w again)
  qed
  show ?thesis
    unfolding resolve_dependencies_def binary_resolve_dependencies_def
    using always [of "ex_index ex" app_dependencies] always [of "index sb" get_dependencies]
    by (intro conjI impI resolve_chain_generic resolve_missing_generic) assumption+
qed

theorem resolve_dependencies_closure_witness:
  "chain_index (ex_index example_chain) app_dependencies ''api'' ''db-client'' ''shared-lib''
   \<and> chain_index (index example_binary_chain) get_dependencies ''python'' ''openssl'' ''zlib''
   \<and> missing_dep_index (ex_index example_chain) app_dependencies ''webserver'' ''ghost''
   \<and> missing_dep_index (index example_binary_chain) get_dependencies ''git'' ''curl''
   \<and> (\<exists>r w. resolve_dependencies example_chain [''api''] = Some (r, w)
         \<and> set r = {''api'', ''db-client'', ''shared-lib''})
   \<and> (\<exists>r w. binary_resolve_dependencies example_binary_chain [''python''] = Some (r, w)
         \<and> set r = {''python'', ''openssl'', ''zlib''})
   \<and> resolve_dependencies example_chain [''webserver''] = Some ([''webserver''], [''ghost''])
   \<and> binary_resolve_dependencies example_binary_chain [''git''] = Some ([''git''], [''curl''])
   \<and> resolve_dependencies example_chain [''nginx'', ''webserver'']
       = Some ([''webserver''], [''nginx'', ''ghost''])
   \<and> {''nginx'', ''ghost''}
       = {k \<in> set [''nginx'', ''webserver'']. \<not> dict_contains (ex_index example_chain) k}
         \<union> absent_deps (ex_index example_chain) app_dependencies {''webserver''}"
proof -
  have a: "chain_index (ex_index example_chain) app_dependencies ''api'' ''db-client'' ''shared-lib''"
    by (simp add: chain_index_def example_chain_def example_entry_def dict_get_def)
  have b: "chain_index (index example_binary_chain) get_dependencies ''python'' ''openssl'' ''zlib''"
    by (simp add: chain_index_def example_binary_chain_def get_dependencies_def dict_get_def)
  have c: "missing_dep_index (ex_index example_chain) app_dependencies ''webserver'' ''ghost''"
    by (simp add: missing_dep_index_def example_chain_def example_entry_def dict_get_def
        dict_contains_def)
  have d: "missing_dep_index (index example_binary_chain) get_dependencies ''git'' ''curl''"
    by (simp add: missing_dep_index_def example_binary_chain_def get_dependencies_def
        dict_get_def dict_contains_def)
  note t1 = resolve_dependencies_closure [of example_chain "''api''" "''db-client''"
      "''shared-lib''" example_binary_chain "[]" "''ghost''"]
  note t2 = resolve_dependencies_closure [of example_chain "''python''" "''openssl''" "''zlib''"
      example_binary_chain "[]" "''curl''"]
  note t3 = resolve_dependencies_closure [of example_chain "''webserver''" "''db-client''"
      "''shared-lib''" example_binary_chain "[]" "''ghost''"]
  note t4 = resolve_dependencies_closure [of example_chain "''git''" "''openssl''" "''zlib''"
      example_binary_chain "[]" "''curl''"]
  note t5 = resolve_dependencies_closure [of example_chain "''api''" "''db-client''"
      "''shared-lib''" example_binary_chain "[''nginx'', ''webserver'']" "''ghost''"]
  note r1 = t1 [THEN conjunct1, THEN mp, OF a]
  note r2 = t2 [THEN conjunct2, THEN conjunct1, THEN mp, OF b]
  note r3 = t3 [THEN conjunct2, THEN conjunct2, THEN conjunct2, THEN conjunct2, THEN conjunct1,
      THEN mp, OF c]
  note r4 = t4 [THEN conjunct2, THEN conjunct2, THEN conjunct2, THEN conjunct2, THEN conjunct2,
      THEN mp, OF d]
  have e: "resolve_dependencies example_chain [''nginx'', ''webserver'']
       = Some ([''webserver''], [''nginx'', ''ghost''])"
    by (simp add: resolve_dependencies_def resolve_loop_total example_chain_def
        example_entry_def dict_get_def)
  from t5 [THEN conjunct2, THEN conjunct2, THEN conjunct1] obtain r w where
    rw: "resolve_dependencies example_chain [''nginx'', ''webserver''] = Some (r, w)"
      "set w = {k \<in> set [''nginx'', ''webserver'']. \<not> dict_contains (ex_index example_chain) k}
                 \<union> absent_deps (ex_index example_chain) app_dependencies (set r)"
    by blast
  from rw(1) e have "r = [''webserver'']" "w = [''nginx'', ''ghost'']"
    by simp_all
  with rw(2) have f: "{''nginx'', ''ghost''}
       = {k \<in> set [''nginx'', ''webserver'']. \<not> dict_contains (ex_index example_chain) k}
         \<union> absent_deps (ex_index example_chain) app_dependencies {''webserver''}"
    by simp
  from a b c d r1 r2 r3 r4 e f show ?thesis
    by (intro conjI)
qed

text \<open>
  C5 as stated fails. In the index of \<open>example_long_chain\<close> the application \<open>api\<close> depends on
  \<open>[db-client]\<close> and \<open>db-client\<close> on \<open>[shared-lib]\<close>, and \<open>shared-lib\<close> depends on a fourth
  application, \<open>base\<close>: resolving \<open>[api]\<close> returns four keys, not three.
\<close>

theorem resolve_dependencies_longer_chain:
  "map_option app_dependencies (dict_get (ex_index example_long_chain) ''api'')
     = Some [''db-client'']
   \<and> map_option app_dependencies (dict_get (ex_index example_long_chain) ''db-client'')
     = Some [''shared-lib'']
   \<and> resolve_dependencies example_long_chain [''api'']
     = Some ([''base'', ''shared-lib'', ''db-client'', ''api''], [])
   \<and> ''base'' \<notin> {''api'', ''db-client'', ''shared-lib''}"
  by (simp add: resolve_dependencies_def resolve_loop_total example_long_chain_def
      example_entry_def dict_get_def)

text \<open>
  C10. \<open>resolve_dependencies\<close> returns for every index and every list of requested keys,
  whatever the dependencies are (the index is a dict, so it is finite; cycles and
  repeated keys are not excluded), and no key occurs twice in what it returns.
\<close>

theorem resolve_dependencies_terminates:
  "(\<exists>r w. resolve_dependencies ex ks = Some (r, w) \<and> distinct r)
   \<and> (\<exists>r w. binary_resolve_dependencies sb ks = Some (r, w) \<and> distinct r)"
  unfolding resolve_dependencies_def binary_resolve_dependencies_def
  using resolve_generic [of "ex_index ex" app_dependencies ks]
    resolve_generic [of "index sb" get_dependencies ks]
  by blast

theorem resolve_dependencies_terminates_witness:
  "resolve_dependencies example_cycle [''a'', ''b'', ''a''] = Some ([''b'', ''a''], [])
   \<and> (\<exists>r w. resolve_dependencies example_cycle [''a'', ''b'', ''a''] = Some (r, w) \<and> distinct r)"
proof -
  have "resolve_dependencies example_cycle [''a'', ''b'', ''a''] = Some ([''b'', ''a''], [])"
    by (simp add: resolve_dependencies_def resolve_loop_total example_cycle_def
        example_entry_def dict_get_def)
  with resolve_dependencies_terminates [of example_cycle "[''a'', ''b'', ''a'']"]
  show ?thesis
    by blast
qed

end
